theory Spec2Isabelle
  imports Complex_Main
begin

section \<open>JavaScript strings and values\<close>

text \<open>
  A JavaScript string is a sequence of UTF-16 code units; a code unit is modelled by
  its number. \<open>S\<close> turns an ASCII literal into such a sequence.
\<close>

type_synonym jsstring = "nat list"

definition S :: "string \<Rightarrow> jsstring" where
  "S = map of_char"

text \<open>
  The values a suggestion can hold: what \<^verbatim>\<open>JSON.parse\<close> returns and what object
  literals of the source build, plus \<^verbatim>\<open>undefined\<close> for an absent property. Numbers keep
  their exact decimal value (IEEE rounding is not modelled). An object is the list of its
  properties in insertion order.
\<close>

datatype jv =
    Undefined
  | Null
  | Bool bool
  | Num rat
  | Str jsstring
  | Arr "jv list"
  | Obj "(jsstring \<times> jv) list"

text \<open>Truthiness, as \<^verbatim>\<open>||\<close>, \<^verbatim>\<open>!\<close> and \<^verbatim>\<open>if\<close> read a value.\<close>

fun truthy :: "jv \<Rightarrow> bool" where
  "truthy Undefined = False"
| "truthy Null = False"
| "truthy (Bool b) = b"
| "truthy (Num r) = (r \<noteq> 0)"
| "truthy (Str s) = (s \<noteq> [])"
| "truthy (Arr _) = True"
| "truthy (Obj _) = True"

definition js_or :: "jv \<Rightarrow> jv \<Rightarrow> jv" where
  "js_or a b = (if truthy a then a else b)"

text \<open>
  Strict equality \<^verbatim>\<open>===\<close>. Arrays and objects are compared by reference; the two
  sides of every comparison in the source come from different objects, so such a
  comparison is false.
\<close>

fun strict_eq :: "jv \<Rightarrow> jv \<Rightarrow> bool" where
  "strict_eq Undefined Undefined = True"
| "strict_eq Null Null = True"
| "strict_eq (Bool a) (Bool b) = (a = b)"
| "strict_eq (Num a) (Num b) = (a = b)"
| "strict_eq (Str a) (Str b) = (a = b)"
| "strict_eq _ _ = False"

section \<open>The diagram\<close>

text \<open>
  The entities of the diagram store, with the properties the assistant code reads and
  writes. Identifiers are the strings \<^verbatim>\<open>nanoid()\<close> returns. A property the code
  copies from a suggestion without looking at it holds any value.
\<close>

record dfield =
  f_id :: jsstring
  f_name :: jv
  f_type :: jv
  f_default :: jv
  f_check :: jv
  f_primary :: jv
  f_unique :: jv
  f_notNull :: jv
  f_increment :: jv
  f_comment :: jv

record dtable =
  t_id :: jsstring
  t_name :: jv
  t_x :: int
  t_y :: int
  t_locked :: bool
  t_fields :: "dfield list option"
  t_comment :: jv
  t_indices :: "jv list"
  t_color :: jsstring
  t_position :: jv

record drel =
  r_id :: jsstring
  r_name :: jv
  r_startTableId :: jsstring
  r_endTableId :: jsstring
  r_startFieldId :: jsstring
  r_endFieldId :: jsstring
  r_cardinality :: jv
  r_constraint :: jv
  r_color :: jsstring

record dnote =
  n_id :: jsstring
  n_content :: jv
  n_x :: jv
  n_y :: jv
  n_width :: int
  n_height :: int
  n_color :: jsstring
  n_position :: jv

record darea =
  a_name :: jv
  a_color :: jv
  a_position :: jv

section \<open>Context Builder: \<^verbatim>\<open>buildDiagramContext\<close> (aiHelpers.js)\<close>

record diagramState =
  ds_tables :: "dtable list"
  ds_relationships :: "drel list"
  ds_database :: jv
  ds_areas :: "darea list"
  ds_notes :: "dnote list"
  ds_types :: jv
  ds_enums :: jv

record ctx_field =
  cf_name :: jv
  cf_type :: jv
  cf_primaryKey :: jv
  cf_notNull :: jv
  cf_unique :: jv
  cf_increment :: jv
  cf_comment :: jv
  cf_default :: jv

record ctx_table =
  ct_name :: jv
  ct_fields :: "ctx_field list"
  ct_comment :: jv
  ct_position :: jv

record ctx_rel =
  cr_fromTable :: jv
  cr_toTable :: jv
  cr_fromField :: jv
  cr_toField :: jv
  cr_cardinality :: jv
  cr_constraint :: jv
  cr_name :: jv

record ctx_area =
  ca_name :: jv
  ca_color :: jv
  ca_position :: jv

record ctx_note =
  cn_content :: jv
  cn_position :: jv

record diagramContext =
  cx_database :: jv
  cx_tables :: "ctx_table list"
  cx_relationships :: "ctx_rel list"
  cx_areas :: "ctx_area list"
  cx_notes :: "ctx_note list"
  cx_types :: jv
  cx_enums :: jv

definition context_field :: "dfield \<Rightarrow> ctx_field" where
  "context_field field =
     \<lparr> cf_name = f_name field,
       cf_type = f_type field,
       cf_primaryKey = js_or (f_primary field) (Bool False),
       cf_notNull = js_or (f_notNull field) (Bool False),
       cf_unique = js_or (f_unique field) (Bool False),
       cf_increment = js_or (f_increment field) (Bool False),
       cf_comment = js_or (f_comment field) (Str []),
       cf_default = js_or (f_default field) (Str []) \<rparr>"

definition context_table :: "dtable \<Rightarrow> ctx_table" where
  "context_table table =
     \<lparr> ct_name = t_name table,
       ct_fields = map context_field (case t_fields table of None \<Rightarrow> [] | Some fs \<Rightarrow> fs),
       ct_comment = js_or (t_comment table) (Str []),
       ct_position = t_position table \<rparr>"

text \<open>\<^verbatim>\<open>tables.find(t => t.id === id)?.name\<close>: the name of the first table with that
  identifier, \<^verbatim>\<open>undefined\<close> when there is none.\<close>

definition table_name_of :: "dtable list \<Rightarrow> jsstring \<Rightarrow> jv" where
  "table_name_of tables i =
     (case find (\<lambda>t. t_id t = i) tables of None \<Rightarrow> Undefined | Some t \<Rightarrow> t_name t)"

definition context_rel :: "dtable list \<Rightarrow> drel \<Rightarrow> ctx_rel" where
  "context_rel tables rel =
     \<lparr> cr_fromTable = js_or (table_name_of tables (r_startTableId rel)) (Str (S ''unknown'')),
       cr_toTable = js_or (table_name_of tables (r_endTableId rel)) (Str (S ''unknown'')),
       cr_fromField = Str (r_startFieldId rel),
       cr_toField = Str (r_endFieldId rel),
       cr_cardinality = r_cardinality rel,
       cr_constraint = js_or (r_constraint rel) (Str (S ''No action'')),
       cr_name = js_or (r_name rel) (Str (S ''rel_'' @ r_id rel)) \<rparr>"

definition buildDiagramContext :: "diagramState \<Rightarrow> diagramContext" where
  "buildDiagramContext diagramState =
     \<lparr> cx_database = ds_database diagramState,
       cx_tables = map context_table (ds_tables diagramState),
       cx_relationships =
         map (context_rel (ds_tables diagramState)) (ds_relationships diagramState),
       cx_areas = map (\<lambda>area. \<lparr> ca_name = a_name area, ca_color = a_color area,
                                ca_position = a_position area \<rparr>) (ds_areas diagramState),
       cx_notes = map (\<lambda>note. \<lparr> cn_content = n_content note,
                                cn_position = n_position note \<rparr>) (ds_notes diagramState),
       cx_types = js_or (ds_types diagramState) (Arr []),
       cx_enums = js_or (ds_enums diagramState) (Arr []) \<rparr>"

section \<open>Strings: the built-ins the parser uses\<close>

definition is_upper :: "nat \<Rightarrow> bool" where
  "is_upper x = (65 \<le> x \<and> x \<le> 90)"

definition is_lower :: "nat \<Rightarrow> bool" where
  "is_lower x = (97 \<le> x \<and> x \<le> 122)"

definition is_digit :: "nat \<Rightarrow> bool" where
  "is_digit x = (48 \<le> x \<and> x \<le> 57)"

text \<open>\<^verbatim>\<open>[a-zA-Z]\<close>, \<^verbatim>\<open>[a-zA-Z_]\<close> and \<^verbatim>\<open>[a-zA-Z0-9_]\<close> (the last is also \<^verbatim>\<open>\w\<close>).\<close>

definition is_letter :: "nat \<Rightarrow> bool" where
  "is_letter x = (is_upper x \<or> is_lower x)"

definition ident_start :: "nat \<Rightarrow> bool" where
  "ident_start x = (is_letter x \<or> x = 95)"

definition ident_char :: "nat \<Rightarrow> bool" where
  "ident_char x = (is_letter x \<or> is_digit x \<or> x = 95)"

text \<open>Line terminators, and \<^verbatim>\<open>\s\<close>: white space and line terminators. \<^verbatim>\<open>.\<close> is any
  code unit but a line terminator, \<^verbatim>\<open>[\s\S]\<close> any code unit.\<close>

definition is_line_terminator :: "nat \<Rightarrow> bool" where
  "is_line_terminator x = (x = 10 \<or> x = 13 \<or> x = 8232 \<or> x = 8233)"

definition is_space :: "nat \<Rightarrow> bool" where
  "is_space x = (x = 9 \<or> x = 10 \<or> x = 11 \<or> x = 12 \<or> x = 13 \<or> x = 32 \<or> x = 160
      \<or> x = 5760 \<or> (8192 \<le> x \<and> x \<le> 8202) \<or> x = 8232 \<or> x = 8233 \<or> x = 8239
      \<or> x = 8287 \<or> x = 12288 \<or> x = 65279)"

definition dot :: "nat \<Rightarrow> bool" where
  "dot x = (\<not> is_line_terminator x)"

definition any_unit :: "nat \<Rightarrow> bool" where
  "any_unit x = True"

text \<open>
  \<^verbatim>\<open>toLowerCase\<close> on the code units below 256 (ASCII and Latin-1 capitals move up by
  32); the Unicode case tables beyond are not modelled, such code units stay.
\<close>

definition lower_unit :: "nat \<Rightarrow> nat" where
  "lower_unit x =
     (if is_upper x \<or> (192 \<le> x \<and> x \<le> 222 \<and> x \<noteq> 215) then x + 32 else x)"

definition toLowerCase :: "jsstring \<Rightarrow> jsstring" where
  "toLowerCase s = map lower_unit s"

definition trim :: "jsstring \<Rightarrow> jsstring" where
  "trim s = rev (dropWhile is_space (rev (dropWhile is_space s)))"

text \<open>\<^verbatim>\<open>s.indexOf(k)\<close>: the first index where \<open>k\<close> starts, \<open>None\<close> for \<open>-1\<close>.\<close>

fun indexOf :: "jsstring \<Rightarrow> jsstring \<Rightarrow> nat option" where
  "indexOf [] k = (if k = [] then Some 0 else None)"
| "indexOf (x # xs) k =
     (if take (length k) (x # xs) = k then Some 0
      else (case indexOf xs k of None \<Rightarrow> None | Some i \<Rightarrow> Some (Suc i)))"

definition js_includes :: "jsstring \<Rightarrow> jsstring \<Rightarrow> bool" where
  "js_includes s k = (indexOf s k \<noteq> None)"

text \<open>\<^verbatim>\<open>s.substring(a, b)\<close> for \<open>0 \<le> a \<le> b\<close>, as every call of the source has it.\<close>

definition substring :: "jsstring \<Rightarrow> nat \<Rightarrow> nat \<Rightarrow> jsstring" where
  "substring s a b = take (b - a) (drop a s)"

section \<open>Regular expressions with JavaScript's backtracking order\<close>

text \<open>
  The fragment the source's patterns are written in: a class of one code unit, a literal
  text (as it is, or under the \<^verbatim>\<open>i\<close> flag), the empty pattern, \<^verbatim>\<open>\b\<close>, sequence,
  alternative, and a class repeated greedily at least \<open>n\<close> times (\<^verbatim>\<open>*\<close>, \<^verbatim>\<open>+\<close>, \<^verbatim>\<open>{2,}\<close>)
  or lazily (\<^verbatim>\<open>*?\<close>).
\<close>

datatype rx =
    Chr "nat \<Rightarrow> bool"
  | Lit string
  | LitI string
  | Eps
  | WordB
  | Seq rx rx
  | Alt rx rx
  | Many "nat \<Rightarrow> bool" nat
  | Few "nat \<Rightarrow> bool"

text \<open>
  A literal code unit, as it is and under the \<^verbatim>\<open>i\<close> flag (the patterns are ASCII, and
  no code unit beyond ASCII is canonicalised to an ASCII one). \<open>lit_prefix eq w s\<close>: does
  \<open>s\<close> start with the literal \<open>w\<close>.
\<close>

definition unit_is :: "char \<Rightarrow> nat \<Rightarrow> bool" where
  "unit_is c x = (x = of_char c)"

definition unit_is_i :: "char \<Rightarrow> nat \<Rightarrow> bool" where
  "unit_is_i c x =
     ((if is_upper x then x + 32 else x)
        = (if is_upper (of_char c) then of_char c + 32 else of_char c))"

fun lit_prefix :: "(char \<Rightarrow> nat \<Rightarrow> bool) \<Rightarrow> string \<Rightarrow> jsstring \<Rightarrow> bool" where
  "lit_prefix eq [] s = True"
| "lit_prefix eq (c # cs) [] = False"
| "lit_prefix eq (c # cs) (x # xs) = (if eq c x then lit_prefix eq cs xs else False)"

text \<open>
  \<open>greedy c n s\<close> and \<open>lazy c s\<close> list how many code units of \<open>s\<close> the repetition may
  take, in the order the engine tries them: longest first, or shortest first.
\<close>

fun greedy :: "(nat \<Rightarrow> bool) \<Rightarrow> nat \<Rightarrow> jsstring \<Rightarrow> nat list" where
  "greedy c n [] = (if n = 0 then [0] else [])"
| "greedy c n (x # xs) =
     (if c x then map Suc (greedy c (n - 1) xs) else []) @ (if n = 0 then [0] else [])"

fun lazy :: "(nat \<Rightarrow> bool) \<Rightarrow> jsstring \<Rightarrow> nat list" where
  "lazy c [] = [0]"
| "lazy c (x # xs) = 0 # (if c x then map Suc (lazy c xs) else [])"

text \<open>The code unit before the position reached after taking \<open>n\<close> units of \<open>s\<close>.\<close>

definition adv :: "nat option \<Rightarrow> jsstring \<Rightarrow> nat \<Rightarrow> nat option" where
  "adv prev s n = (if n = 0 \<or> s = [] then prev else Some (last (take n s)))"

definition is_word :: "nat option \<Rightarrow> bool" where
  "is_word u = (case u of None \<Rightarrow> False | Some x \<Rightarrow> ident_char x)"

text \<open>
  \<open>paths r prev s\<close>: the lengths of all the ways \<open>r\<close> matches at the start of \<open>s\<close>
  (\<open>prev\<close> is the code unit before it), in backtracking order. The engine's match is
  the first one. \<open>seq_paths b prev s ns\<close> continues with \<open>b\<close> behind each of the lengths
  \<open>ns\<close> that the first part of a sequence gave.
\<close>

fun paths :: "rx \<Rightarrow> nat option \<Rightarrow> jsstring \<Rightarrow> nat list"
  and seq_paths :: "rx \<Rightarrow> nat option \<Rightarrow> jsstring \<Rightarrow> nat list \<Rightarrow> nat list" where
  "paths (Chr c) prev s = (case s of [] \<Rightarrow> [] | x # xs \<Rightarrow> if c x then [1] else [])"
| "paths (Lit w) prev s = (if lit_prefix unit_is w s then [length w] else [])"
| "paths (LitI w) prev s = (if lit_prefix unit_is_i w s then [length w] else [])"
| "paths Eps prev s = [0]"
| "paths WordB prev s =
     (if is_word prev \<noteq> is_word (case s of [] \<Rightarrow> None | x # xs \<Rightarrow> Some x) then [0] else [])"
| "paths (Seq a b) prev s = seq_paths b prev s (paths a prev s)"
| "paths (Alt a b) prev s = paths a prev s @ paths b prev s"
| "paths (Many c n) prev s = greedy c n s"
| "paths (Few c) prev s = lazy c s"
| "seq_paths b prev s [] = []"
| "seq_paths b prev s (n # ns) =
     map ((+) n) (paths b (adv prev s n) (drop n s)) @ seq_paths b prev s ns"

definition match_at :: "rx \<Rightarrow> nat option \<Rightarrow> jsstring \<Rightarrow> nat option" where
  "match_at r prev s = (case paths r prev s of [] \<Rightarrow> None | n # _ \<Rightarrow> Some n)"

text \<open>
  \<^verbatim>\<open>s.match(/r/g)\<close>: the matched substrings from left to right, \<open>[]\<close> for \<^verbatim>\<open>null\<close>. After an
  empty match the search moves one code unit on.
\<close>

function match_all :: "rx \<Rightarrow> nat option \<Rightarrow> jsstring \<Rightarrow> jsstring list" where
  "match_all r prev [] = (case match_at r prev [] of None \<Rightarrow> [] | Some n \<Rightarrow> [[]])"
| "match_all r prev (x # xs) =
     (case match_at r prev (x # xs) of
        None \<Rightarrow> match_all r (Some x) xs
      | Some n \<Rightarrow>
          if n = 0 then [] # match_all r (Some x) xs
          else take n (x # xs) # match_all r (adv prev (x # xs) n) (drop n (x # xs)))"
  by pat_completeness auto
termination
  by (relation "measure (\<lambda>(r, prev, s). length s)") auto

definition js_match :: "jsstring \<Rightarrow> rx \<Rightarrow> jsstring list" where
  "js_match s r = match_all r None s"

text \<open>\<^verbatim>\<open>s.replace(/r/, '')\<close>: the leftmost match is cut out.\<close>

fun replace_from :: "rx \<Rightarrow> nat option \<Rightarrow> jsstring \<Rightarrow> jsstring" where
  "replace_from r prev [] = []"
| "replace_from r prev (x # xs) =
     (case match_at r prev (x # xs) of
        None \<Rightarrow> x # replace_from r (Some x) xs
      | Some n \<Rightarrow> drop n (x # xs))"

definition js_replace :: "jsstring \<Rightarrow> rx \<Rightarrow> jsstring" where
  "js_replace s r = replace_from r None s"

text \<open>\<^verbatim>\<open>/r/.test(s)\<close> on a fresh expression: is there a match anywhere.\<close>

fun test_from :: "rx \<Rightarrow> nat option \<Rightarrow> jsstring \<Rightarrow> bool" where
  "test_from r prev [] = (match_at r prev [] \<noteq> None)"
| "test_from r prev (x # xs) = (match_at r prev (x # xs) \<noteq> None \<or> test_from r (Some x) xs)"

definition js_test :: "rx \<Rightarrow> jsstring \<Rightarrow> bool" where
  "js_test r s = test_from r None s"

text \<open>
  \<^verbatim>\<open>s.split(/r/)\<close>. \<open>piece\<close> holds, reversed, the code units since the last separator. A
  separator that ends where the piece starts is passed over; the search stops at the
  end of the string.
\<close>

function split_from :: "rx \<Rightarrow> jsstring \<Rightarrow> nat option \<Rightarrow> jsstring \<Rightarrow> jsstring list" where
  "split_from r piece prev [] = [rev piece]"
| "split_from r piece prev (x # xs) =
     (case match_at r prev (x # xs) of
        None \<Rightarrow> split_from r (x # piece) (Some x) xs
      | Some n \<Rightarrow>
          if n = 0 then
            (if piece = [] then split_from r [x] (Some x) xs
             else rev piece # split_from r [x] (Some x) xs)
          else rev piece # split_from r [] (adv prev (x # xs) n) (drop n (x # xs)))"
  by pat_completeness auto
termination
  by (relation "measure (\<lambda>(r, piece, prev, s). length s)") auto

definition js_split :: "jsstring \<Rightarrow> rx \<Rightarrow> jsstring list" where
  "js_split s r =
     (if s = [] then (if match_at r None [] = None then [[]] else [])
      else split_from r [] None s)"

text \<open>Lists of alternatives and of parts.\<close>

fun alts :: "rx list \<Rightarrow> rx" where
  "alts [] = Chr (\<lambda>x. False)"
| "alts [r] = r"
| "alts (r # rs) = Alt r (alts rs)"

fun seqs :: "rx list \<Rightarrow> rx" where
  "seqs [] = Eps"
| "seqs [r] = r"
| "seqs (r # rs) = Seq r (seqs rs)"

section \<open>\<^verbatim>\<open>JSON.parse\<close>\<close>

text \<open>
  The JSON grammar of ECMAScript: white space is tab, line feed, carriage return and
  space; a string has no raw control code unit and the escapes
  \<^verbatim>\<open>\" \\ \/ \b \f \n \r \t \uXXXX\<close>; a number is
  \<^verbatim>\<open>-?(0|[1-9][0-9]*)(\.[0-9]+)?([eE][+-]?[0-9]+)?\<close>. \<open>None\<close> stands for the
  SyntaxError. A repeated key keeps its last value.
\<close>

definition json_ws :: "nat \<Rightarrow> bool" where
  "json_ws x = (x = 9 \<or> x = 10 \<or> x = 13 \<or> x = 32)"

definition skip_ws :: "jsstring \<Rightarrow> jsstring" where
  "skip_ws s = dropWhile json_ws s"

definition hexval :: "nat \<Rightarrow> nat option" where
  "hexval x =
     (if is_digit x then Some (x - 48)
      else if 97 \<le> x \<and> x \<le> 102 then Some (x - 87)
      else if 65 \<le> x \<and> x \<le> 70 then Some (x - 55)
      else None)"

text \<open>The code unit that the four hexadecimal digits at the start of \<open>r\<close> denote.\<close>

definition hex4 :: "jsstring \<Rightarrow> nat option" where
  "hex4 r =
     (case r of
        a # b # c # d # _ \<Rightarrow>
          (case (hexval a, hexval b, hexval c, hexval d) of
             (Some h1, Some h2, Some h3, Some h4) \<Rightarrow> Some (h1 * 4096 + h2 * 256 + h3 * 16 + h4)
           | _ \<Rightarrow> None)
      | _ \<Rightarrow> None)"

text \<open>The simple escapes: the code unit after the backslash and the one it stands for.\<close>

definition escape_of :: "nat \<Rightarrow> nat option" where
  "escape_of e =
     (if e = 34 then Some 34 else if e = 92 then Some 92 else if e = 47 then Some 47
      else if e = 98 then Some 8 else if e = 102 then Some 12 else if e = 110 then Some 10
      else if e = 114 then Some 13 else if e = 116 then Some 9 else None)"

text \<open>A string, read from behind its opening quote; \<open>acc\<close> is what was read, reversed.\<close>

fun json_string :: "jsstring \<Rightarrow> jsstring \<Rightarrow> (jsstring \<times> jsstring) option" where
  "json_string acc [] = None"
| "json_string acc [c] = (if c = 34 then Some (rev acc, []) else None)"
| "json_string acc (c # e # r) =
     (if c = 34 then Some (rev acc, e # r)
      else if c = 92 then
        (if e = 117 then
           (case hex4 r of
              None \<Rightarrow> None
            | Some u \<Rightarrow> json_string (u # acc) (drop 4 r))
         else (case escape_of e of
                 None \<Rightarrow> None
               | Some u \<Rightarrow> json_string (u # acc) r))
      else if c < 32 then None
      else json_string (c # acc) (e # r))"

definition digits_val :: "jsstring \<Rightarrow> nat" where
  "digits_val ds = foldl (\<lambda>a d. 10 * a + (d - 48)) 0 ds"

text \<open>The three parts of a number: each returns what it read and the rest.\<close>

definition json_int :: "jsstring \<Rightarrow> (jsstring \<times> jsstring) option" where
  "json_int s =
     (case s of
        [] \<Rightarrow> None
      | d # r \<Rightarrow>
          if \<not> is_digit d then None
          else if d = 48 then Some ([d], r)
          else Some (takeWhile is_digit s, dropWhile is_digit s))"

definition json_frac :: "jsstring \<Rightarrow> (jsstring \<times> jsstring) option" where
  "json_frac s =
     (case s of
        [] \<Rightarrow> Some ([], s)
      | p # r \<Rightarrow>
          if p \<noteq> 46 then Some ([], s)
          else if takeWhile is_digit r = [] then None
          else Some (takeWhile is_digit r, dropWhile is_digit r))"

definition json_exp :: "jsstring \<Rightarrow> (int \<times> jsstring) option" where
  "json_exp s =
     (case s of
        [] \<Rightarrow> Some (0, s)
      | e # r \<Rightarrow>
          if e \<noteq> 101 \<and> e \<noteq> 69 then Some (0, s)
          else
            (let neg = (case r of [] \<Rightarrow> False | g # _ \<Rightarrow> g = 45);
                 r' = (case r of [] \<Rightarrow> r | g # t \<Rightarrow> if g = 45 \<or> g = 43 then t else r)
             in if takeWhile is_digit r' = [] then None
                else Some ((if neg then - int (digits_val (takeWhile is_digit r'))
                            else int (digits_val (takeWhile is_digit r'))),
                           dropWhile is_digit r')))"

definition pow10 :: "int \<Rightarrow> rat" where
  "pow10 e = (if 0 \<le> e then 10 ^ nat e else 1 / 10 ^ nat (- e))"

definition json_number :: "jsstring \<Rightarrow> (rat \<times> jsstring) option" where
  "json_number s =
     (let neg = (case s of [] \<Rightarrow> False | g # _ \<Rightarrow> g = 45);
          s1 = (if neg then tl s else s)
      in case json_int s1 of
           None \<Rightarrow> None
         | Some (ip, s2) \<Rightarrow>
             (case json_frac s2 of
                None \<Rightarrow> None
              | Some (fp, s3) \<Rightarrow>
                  (case json_exp s3 of
                     None \<Rightarrow> None
                   | Some (e, s4) \<Rightarrow>
                       Some ((if neg then -1 else 1)
                               * (of_nat (digits_val ip)
                                  + of_nat (digits_val fp) / 10 ^ length fp)
                               * pow10 e, s4))))"

fun obj_put :: "jsstring \<Rightarrow> jv \<Rightarrow> (jsstring \<times> jv) list \<Rightarrow> (jsstring \<times> jv) list" where
  "obj_put k v [] = [(k, v)]"
| "obj_put k v ((k', v') # kvs) =
     (if k' = k then (k, v) # kvs else (k', v') # obj_put k v kvs)"

text \<open>
  Values, the elements of an array behind its bracket, and the members of an object
  behind its brace. The first argument bounds the number of nested calls; \<open>JSON_parse\<close>
  starts with more than any text needs.
\<close>

fun json_value :: "nat \<Rightarrow> jsstring \<Rightarrow> (jv \<times> jsstring) option"
  and json_elements :: "nat \<Rightarrow> jv list \<Rightarrow> jsstring \<Rightarrow> (jv \<times> jsstring) option"
  and json_members :: "nat \<Rightarrow> (jsstring \<times> jv) list \<Rightarrow> jsstring \<Rightarrow> (jv \<times> jsstring) option"
where
  "json_value 0 s = None"
| "json_value (Suc n) s =
     (case skip_ws s of
        [] \<Rightarrow> None
      | c # cs \<Rightarrow>
          if c = 123 then
            (case skip_ws cs of
               [] \<Rightarrow> None
             | d # r \<Rightarrow> if d = 125 then Some (Obj [], r) else json_members n [] cs)
          else if c = 91 then
            (case skip_ws cs of
               [] \<Rightarrow> None
             | d # r \<Rightarrow> if d = 93 then Some (Arr [], r) else json_elements n [] cs)
          else if c = 34 then
            (case json_string [] cs of
               None \<Rightarrow> None
             | Some (str, r) \<Rightarrow> Some (Str str, r))
          else if c = 45 \<or> is_digit c then
            (case json_number (c # cs) of
               None \<Rightarrow> None
             | Some (q, r) \<Rightarrow> Some (Num q, r))
          else if take 4 (c # cs) = S ''true'' then Some (Bool True, drop 4 (c # cs))
          else if take 5 (c # cs) = S ''false'' then Some (Bool False, drop 5 (c # cs))
          else if take 4 (c # cs) = S ''null'' then Some (Null, drop 4 (c # cs))
          else None)"
| "json_elements 0 acc s = None"
| "json_elements (Suc n) acc s =
     (case json_value n s of
        None \<Rightarrow> None
      | Some (v, r) \<Rightarrow>
          (case skip_ws r of
             [] \<Rightarrow> None
           | d # r' \<Rightarrow>
               if d = 44 then json_elements n (acc @ [v]) r'
               else if d = 93 then Some (Arr (acc @ [v]), r')
               else None))"
| "json_members 0 acc s = None"
| "json_members (Suc n) acc s =
     (case skip_ws s of
        [] \<Rightarrow> None
      | q # cs \<Rightarrow>
          if q \<noteq> 34 then None
          else
            (case json_string [] cs of
               None \<Rightarrow> None
             | Some (k, r) \<Rightarrow>
                 (case skip_ws r of
                    [] \<Rightarrow> None
                  | col # r1 \<Rightarrow>
                      if col \<noteq> 58 then None
                      else
                        (case json_value n r1 of
                           None \<Rightarrow> None
                         | Some (v, r2) \<Rightarrow>
                             (case skip_ws r2 of
                                [] \<Rightarrow> None
                              | d # r3 \<Rightarrow>
                                  if d = 44 then json_members n (obj_put k v acc) r3
                                  else if d = 125 then Some (Obj (obj_put k v acc), r3)
                                  else None)))))"

definition JSON_parse :: "jsstring \<Rightarrow> jv option" where
  "JSON_parse s =
     (case json_value (Suc (Suc (length s + length s))) s of
        None \<Rightarrow> None
      | Some (v, r) \<Rightarrow> if skip_ws r = [] then Some v else None)"

section \<open>Response Parser: \<^verbatim>\<open>parseAIResponse\<close> (aiHelpers.js)\<close>

text \<open>The exceptions the code can raise by itself: the TypeError of reading a property of
  \<^verbatim>\<open>null\<close> or \<^verbatim>\<open>undefined\<close>, and the RangeError of a call with more arguments than the
  engine takes.\<close>

datatype exn = TypeError | RangeError

text \<open>\<^verbatim>\<open>v.k\<close> on a parsed value: a TypeError on \<^verbatim>\<open>null\<close> and \<^verbatim>\<open>undefined\<close>, the
  property of an object, \<^verbatim>\<open>undefined\<close> otherwise (none of the names the source reads is a
  property of a string, number, boolean or array).\<close>

fun get_prop :: "jv \<Rightarrow> string \<Rightarrow> exn + jv" where
  "get_prop Undefined k = Inl TypeError"
| "get_prop Null k = Inl TypeError"
| "get_prop (Obj kvs) k = Inr (case map_of kvs (S k) of None \<Rightarrow> Undefined | Some v \<Rightarrow> v)"
| "get_prop v k = Inr Undefined"

record suggestions =
  sg_tables :: "jv list"
  sg_relationships :: "jv list"
  sg_notes :: "jv list"
  sg_optimizations :: "jv list"
  sg_sqlQueries :: "jsstring list"
  sg_general :: "jv list"

definition no_suggestions :: suggestions where
  "no_suggestions =
     \<lparr> sg_tables = [], sg_relationships = [], sg_notes = [], sg_optimizations = [],
       sg_sqlQueries = [], sg_general = [] \<rparr>"

subsection \<open>Fenced JSON and SQL blocks\<close>

definition json_open :: rx where
  "json_open = Lit (''```json'' @ [CHR 0x0A])"

definition sql_open :: rx where
  "sql_open = Lit (''```sql'' @ [CHR 0x0A])"

definition fence_close :: rx where
  "fence_close = Lit (CHR 0x0A # ''```'')"

definition json_fence :: rx where
  "json_fence = seqs [json_open, Few any_unit, fence_close]"

definition sql_fence :: rx where
  "sql_fence = seqs [sql_open, Few any_unit, fence_close]"

text \<open>\<^verbatim>\<open>if (v && Array.isArray(v))\<close> then its elements, else nothing.\<close>

definition array_elems :: "jv \<Rightarrow> jv list" where
  "array_elems v = (case v of Arr xs \<Rightarrow> xs | _ \<Rightarrow> [])"

text \<open>
  The body of the loop over the JSON blocks. The \<^verbatim>\<open>try\<close> catches the SyntaxError of
  \<^verbatim>\<open>JSON.parse\<close> and the TypeError of reading a property of \<^verbatim>\<open>null\<close>; what was pushed
  before stays.
\<close>

definition json_content :: "jsstring \<Rightarrow> jsstring" where
  "json_content m = js_replace (js_replace m json_open) fence_close"

definition json_block :: "suggestions \<Rightarrow> jsstring \<Rightarrow> suggestions" where
  "json_block sg m =
     (case JSON_parse (json_content m) of
        None \<Rightarrow> sg
      | Some parsed \<Rightarrow>
          (case get_prop parsed ''tables'' of
             Inl e \<Rightarrow> sg
           | Inr ts \<Rightarrow>
               (let sg1 = sg\<lparr>sg_tables := sg_tables sg @ array_elems ts\<rparr>
                in case get_prop parsed ''relationships'' of
                     Inl e \<Rightarrow> sg1
                   | Inr rs \<Rightarrow>
                       (let sg2 = sg1\<lparr>sg_relationships := sg_relationships sg1 @ array_elems rs\<rparr>
                        in case get_prop parsed ''notes'' of
                             Inl e \<Rightarrow> sg2
                           | Inr ns \<Rightarrow> sg2\<lparr>sg_notes := sg_notes sg2 @ array_elems ns\<rparr>))))"

definition json_stage :: "jsstring \<Rightarrow> suggestions \<Rightarrow> suggestions" where
  "json_stage response sg = foldl json_block sg (js_match response json_fence)"

definition sql_stage :: "jsstring \<Rightarrow> suggestions \<Rightarrow> suggestions" where
  "sql_stage response sg =
     (let sqlMatches = js_match response sql_fence
      in if sqlMatches = [] then sg
         else sg\<lparr>sg_sqlQueries :=
                   map (\<lambda>m. js_replace (js_replace m sql_open) fence_close) sqlMatches\<rparr>)"

subsection \<open>Table names\<close>

definition dot_star :: rx where
  "dot_star = Many dot 0"

definition spaces :: rx where
  "spaces = Many is_space 0"

text \<open>\<^verbatim>\<open>[a-zA-Z_][a-zA-Z0-9_]*\<close>\<close>

definition ident :: rx where
  "ident = Seq (Chr ident_start) (Many ident_char 0)"

definition tablePattern0 :: rx where
  "tablePattern0 =
     seqs [alts [LitI ''CREATE TABLE'', LitI ''Add table'', LitI ''Table:'',
                 seqs [LitI ''suggest'', dot_star, LitI ''table''],
                 seqs [LitI ''recommend'', dot_star, LitI ''table''],
                 seqs [LitI ''consider'', dot_star, LitI ''table'']],
           spaces, ident]"

definition tablePattern1 :: rx where
  "tablePattern1 =
     seqs [alts [LitI ''missing'', LitI ''add'', LitI ''create'', LitI ''suggest''],
           dot_star, LitI ''table'', Many is_space 1, ident]"

definition tablePattern2 :: rx where
  "tablePattern2 =
     seqs [alts [LitI ''you should'', LitI ''I recommend'', LitI ''consider adding''],
           dot_star, LitI ''table'', Many is_space 1, ident]"

definition tablePatterns :: "rx list" where
  "tablePatterns = [tablePattern0, tablePattern1, tablePattern2]"

text \<open>The expression that \<^verbatim>\<open>match.replace(..., '')\<close> cuts out of a table match.\<close>

definition table_strip :: rx where
  "table_strip =
     seqs [alts [LitI ''CREATE TABLE'', LitI ''Add table'', LitI ''Table:'',
                 seqs [LitI ''suggest'', dot_star, LitI ''table''],
                 seqs [LitI ''recommend'', dot_star, LitI ''table''],
                 seqs [LitI ''consider'', dot_star, LitI ''table''],
                 LitI ''missing'', LitI ''add'', LitI ''create'', LitI ''suggest'',
                 LitI ''you should'', LitI ''I recommend'', LitI ''consider adding''],
           dot_star, LitI ''table'', spaces]"

definition default_fields :: jv where
  "default_fields =
     Arr [ Obj [(S ''name'', Str (S ''id'')), (S ''type'', Str (S ''INTEGER'')),
                (S ''primaryKey'', Bool True)],
           Obj [(S ''name'', Str (S ''created_at'')), (S ''type'', Str (S ''TIMESTAMP''))],
           Obj [(S ''name'', Str (S ''updated_at'')), (S ''type'', Str (S ''TIMESTAMP''))] ]"

definition basic_table :: "jsstring \<Rightarrow> jv" where
  "basic_table m =
     (let tableName = trim (js_replace m table_strip)
      in Obj [ (S ''name'', Str tableName),
               (S ''fields'', default_fields),
               (S ''comment'', Str (S ''AI-suggested table: '' @ tableName)) ])"

text \<open>
  The body of the loop over the table patterns. \<^verbatim>\<open>suggestions.tables.push(...basicTables)\<close>
  passes every element as an argument of one call; \<open>table_step\<close> is the body on an engine
  that takes any number of arguments, and \<open>table_step_limited\<close> below is the body on an
  engine with a limit.
\<close>

definition table_step :: "jsstring \<Rightarrow> suggestions \<Rightarrow> rx \<Rightarrow> suggestions" where
  "table_step response sg pattern =
     (let matches = js_match response pattern
      in if matches = [] then sg
         else sg\<lparr>sg_tables := sg_tables sg @ map basic_table matches\<rparr>)"

definition table_stage :: "jsstring \<Rightarrow> suggestions \<Rightarrow> suggestions" where
  "table_stage response sg = foldl (table_step response) sg tablePatterns"

subsection \<open>Relationships\<close>

text \<open>\<^verbatim>\<open>[a-zA-Z_][a-zA-Z0-9_]{2,}\<close> and \<^verbatim>\<open>(?:to|->|references|with)\<close>\<close>

definition ident3 :: rx where
  "ident3 = Seq (Chr ident_start) (Many ident_char 2)"

definition rel_word :: rx where
  "rel_word = alts [LitI ''to'', LitI ''->'', LitI ''references'', LitI ''with'']"

definition relPattern0 :: rx where
  "relPattern0 =
     seqs [alts [LitI ''relationship'', LitI ''foreign key'', LitI ''FK'',
                 LitI ''connection'', LitI ''link''],
           spaces, ident3, spaces, rel_word, spaces, ident3]"

definition relPattern1 :: rx where
  "relPattern1 =
     seqs [alts [LitI ''suggest'', LitI ''recommend'', LitI ''consider''],
           dot_star, LitI ''relationship'', dot_star,
           ident3, spaces, rel_word, spaces, ident3]"

definition relPattern2 :: rx where
  "relPattern2 =
     seqs [alts [LitI ''you should'', LitI ''I recommend'', LitI ''consider adding''],
           dot_star, LitI ''relationship'', dot_star,
           ident3, spaces, rel_word, spaces, ident3]"

definition relPatterns :: "rx list" where
  "relPatterns = [relPattern0, relPattern1, relPattern2]"

definition rel_sep :: rx where
  "rel_sep = seqs [spaces, rel_word, spaces]"

definition rel_strip :: rx where
  "rel_strip =
     seqs [alts [LitI ''relationship'', LitI ''foreign key'', LitI ''FK'',
                 LitI ''connection'', LitI ''link'', LitI ''suggest'', LitI ''recommend'',
                 LitI ''consider'', LitI ''you should'', LitI ''I recommend'',
                 LitI ''consider adding''],
           dot_star, LitI ''relationship'', spaces]"

definition excludeWords :: "jsstring list" where
  "excludeWords = map S
     [''the'', ''and'', ''or'', ''but'', ''for'', ''nor'', ''yet'', ''so'', ''a'', ''an'',
      ''in'', ''on'', ''at'', ''to'', ''for'', ''of'', ''with'', ''by'', ''linked'',
      ''connected'', ''related'']"

text \<open>
  The callback of \<^verbatim>\<open>matches.map\<close>: \<open>None\<close> is the \<^verbatim>\<open>null\<close> that the filter drops.
  \<^verbatim>\<open>parts[1]?.trim()\<close> is \<^verbatim>\<open>undefined\<close> when the split gives one part only, and
  \<^verbatim>\<open>toTable.toLowerCase()\<close> raises then; likewise \<^verbatim>\<open>parts[0].replace\<close> on no part at all.
\<close>

definition rel_of_match :: "jsstring \<Rightarrow> exn + jv option" where
  "rel_of_match m =
     (case js_split m rel_sep of
        [] \<Rightarrow> Inl TypeError
      | p0 # rest \<Rightarrow>
          (let fromTable = trim (js_replace p0 rel_strip);
               toTable = (case rest of [] \<Rightarrow> None | p1 # _ \<Rightarrow> Some (trim p1))
           in if toLowerCase fromTable \<in> set excludeWords then Inr None
              else (case toTable of
                      None \<Rightarrow> Inl TypeError
                    | Some toT \<Rightarrow>
                        if toLowerCase toT \<in> set excludeWords then Inr None
                        else if length fromTable < 2 \<or> length toT < 2
                                \<or> \<not> js_test (Chr is_letter) fromTable
                                \<or> \<not> js_test (Chr is_letter) toT then Inr None
                        else Inr (Some (Obj
                               [ (S ''fromTable'', Str fromTable),
                                 (S ''toTable'', Str toT),
                                 (S ''fromField'', Str (toLowerCase fromTable @ S ''_id'')),
                                 (S ''toField'', Str (S ''id'')),
                                 (S ''cardinality'', Str (S ''one_to_many'')),
                                 (S ''constraint'', Str (S ''No action'')) ])))))"

text \<open>\<^verbatim>\<open>xs.map(f)\<close> for a callback that may raise: the first exception ends it.\<close>

fun map_exn :: "('a \<Rightarrow> exn + 'b) \<Rightarrow> 'a list \<Rightarrow> exn + 'b list" where
  "map_exn f [] = Inr []"
| "map_exn f (x # xs) =
     (case f x of
        Inl e \<Rightarrow> Inl e
      | Inr y \<Rightarrow> (case map_exn f xs of Inl e \<Rightarrow> Inl e | Inr ys \<Rightarrow> Inr (y # ys)))"

text \<open>The body of the loop over the relationship patterns, on an engine that takes any
  number of arguments in \<^verbatim>\<open>push(...basicRels)\<close>; \<open>rel_step_limited\<close> below has the limit.\<close>

definition rel_step :: "jsstring \<Rightarrow> suggestions \<Rightarrow> rx \<Rightarrow> exn + suggestions" where
  "rel_step response sg pattern =
     (let matches = js_match response pattern
      in if matches = [] then Inr sg
         else (case map_exn rel_of_match matches of
                 Inl e \<Rightarrow> Inl e
               | Inr rels \<Rightarrow>
                   Inr (sg\<lparr>sg_relationships :=
                              sg_relationships sg @ List.map_filter (\<lambda>r. r) rels\<rparr>)))"

text \<open>A \<^verbatim>\<open>for\<close> loop whose body may raise.\<close>

fun fold_exn :: "('s \<Rightarrow> 'a \<Rightarrow> exn + 's) \<Rightarrow> 's \<Rightarrow> 'a list \<Rightarrow> exn + 's" where
  "fold_exn f s [] = Inr s"
| "fold_exn f s (x # xs) = (case f s x of Inl e \<Rightarrow> Inl e | Inr s' \<Rightarrow> fold_exn f s' xs)"

definition rel_stage :: "jsstring \<Rightarrow> suggestions \<Rightarrow> exn + suggestions" where
  "rel_stage response sg = fold_exn (rel_step response) sg relPatterns"

subsection \<open>Notes\<close>

definition note_verb :: rx where
  "note_verb = alts [LitI ''add'', LitI ''create'', LitI ''insert'', LitI ''include'']"

definition note_about :: rx where
  "note_about = alts [LitI ''about'', LitI ''for'', LitI ''regarding'']"

definition notePattern0 :: rx where
  "notePattern0 =
     seqs [note_verb, dot_star, LitI ''note'', dot_star,
           alts [LitI ''about'', LitI ''for'', LitI ''regarding'', LitI ''documenting''],
           spaces, Many dot 1]"

definition notePattern1 :: rx where
  "notePattern1 =
     seqs [note_verb, dot_star, LitI ''document'', dot_star, note_about, spaces, Many dot 1]"

definition notePattern2 :: rx where
  "notePattern2 =
     seqs [note_verb, dot_star, LitI ''spec'', dot_star, note_about, spaces, Many dot 1]"

definition notePattern3 :: rx where
  "notePattern3 =
     seqs [note_verb, dot_star, LitI ''specification'', dot_star, note_about, spaces,
           Many dot 1]"

definition notePatterns :: "rx list" where
  "notePatterns = [notePattern0, notePattern1, notePattern2, notePattern3]"

definition note_strip :: rx where
  "note_strip =
     seqs [note_verb, dot_star,
           alts [LitI ''note'', LitI ''document'', LitI ''spec'', LitI ''specification''],
           dot_star, note_about, spaces]"

definition default_position :: jv where
  "default_position = Obj [(S ''x'', Num 100), (S ''y'', Num 100)]"

definition note_of_match :: "jsstring \<Rightarrow> jv" where
  "note_of_match m =
     Obj [ (S ''content'', Str (trim (js_replace m note_strip))),
           (S ''position'', default_position) ]"

text \<open>The body of the loop over the note patterns, on an engine that takes any number of
  arguments in \<^verbatim>\<open>push(...noteSuggestions)\<close>; \<open>note_step_limited\<close> below has the limit.\<close>

definition note_step :: "jsstring \<Rightarrow> suggestions \<Rightarrow> rx \<Rightarrow> suggestions" where
  "note_step response sg pattern =
     (let matches = js_match response pattern
      in if matches = [] then sg
         else sg\<lparr>sg_notes := sg_notes sg @ map note_of_match matches\<rparr>)"

definition note_stage :: "jsstring \<Rightarrow> suggestions \<Rightarrow> suggestions" where
  "note_stage response sg = foldl (note_step response) sg notePatterns"

subsection \<open>General advice: \<^verbatim>\<open>extractGeneralSuggestions\<close>\<close>

record general_suggestions =
  gs_tables :: "jv list"
  gs_relationships :: "jv list"
  gs_notes :: "jv list"

definition commonTableNames :: "string list" where
  "commonTableNames =
     [''users'', ''user'', ''customers'', ''customer'', ''orders'', ''order'', ''products'',
      ''product'', ''categories'', ''category'', ''posts'', ''post'', ''comments'',
      ''comment'', ''tags'', ''tag'', ''sessions'', ''session'', ''logs'', ''log'', ''audit'',
      ''audits'', ''settings'', ''setting'', ''profiles'', ''profile'', ''addresses'',
      ''address'', ''payments'', ''payment'', ''inventory'', ''stock'', ''suppliers'',
      ''supplier'', ''employees'', ''employee'']"

text \<open>\<^verbatim>\<open>new RegExp(`\\b${tableName}\\b`, 'gi')\<close>\<close>

definition word_rx :: "string \<Rightarrow> rx" where
  "word_rx tableName = seqs [WordB, LitI tableName, WordB]"

definition general_table :: "string \<Rightarrow> jv" where
  "general_table tableName =
     Obj [ (S ''name'', Str (S tableName)),
           (S ''fields'', default_fields),
           (S ''comment'', Str (S ''AI-suggested table based on analysis: '' @ S tableName)) ]"

text \<open>\<^verbatim>\<open>t.name === tableName\<close> for an entry \<open>t\<close> of the list built so far (an object).\<close>

definition has_name :: "string \<Rightarrow> jv \<Rightarrow> bool" where
  "has_name tableName t =
     (case get_prop t ''name'' of Inl e \<Rightarrow> False | Inr v \<Rightarrow> strict_eq v (Str (S tableName)))"

definition general_table_step :: "jsstring \<Rightarrow> jv list \<Rightarrow> string \<Rightarrow> jv list" where
  "general_table_step response tabs tableName =
     (if js_test (word_rx tableName) response then
        (if list_ex (has_name tableName) tabs then tabs
         else tabs @ [general_table tableName])
      else tabs)"

definition relationshipKeywords :: "string list" where
  "relationshipKeywords =
     [''belongs to'', ''has many'', ''has one'', ''many to many'', ''one to many'',
      ''one to one'', ''foreign key'', ''reference'', ''relates to'', ''connected to'',
      ''linked to'']"

definition general_rel :: "string \<Rightarrow> jv" where
  "general_rel tableName =
     Obj [ (S ''fromTable'', Str (S ''table1'')),
           (S ''toTable'', Str (S tableName)),
           (S ''fromField'', Str (S ''table1_id'')),
           (S ''toField'', Str (S ''id'')),
           (S ''cardinality'', Str (S ''one_to_many'')),
           (S ''constraint'', Str (S ''No action'')) ]"

text \<open>The index comes from the lower-cased text, the windows are cut from the text itself.
  \<open>keywordIndex - 100\<close> on \<open>nat\<close> is \<^verbatim>\<open>Math.max(0, keywordIndex - 100)\<close>.\<close>

definition general_rel_step :: "jsstring \<Rightarrow> jv list \<Rightarrow> string \<Rightarrow> jv list" where
  "general_rel_step response rels keyword =
     (if js_includes (toLowerCase response) (S keyword) then
        (case indexOf (toLowerCase response) (S keyword) of
           None \<Rightarrow> rels
         | Some keywordIndex \<Rightarrow>
             (let beforeContext = substring response (keywordIndex - 100) keywordIndex;
                  afterContext = substring response keywordIndex
                                   (min (length response) (keywordIndex + 100))
              in rels @ map general_rel
                   (filter (\<lambda>tableName.
                              js_includes (toLowerCase beforeContext) (S tableName)
                              \<or> js_includes (toLowerCase afterContext) (S tableName))
                      commonTableNames)))
      else rels)"

definition noteKeywords :: "string list" where
  "noteKeywords =
     [''spec'', ''specification'', ''document'', ''documentation'', ''note'', ''notes'',
      ''comment'', ''comments'', ''description'', ''explanation'', ''details'']"

definition general_note_step :: "jsstring \<Rightarrow> jv list \<Rightarrow> string \<Rightarrow> jv list" where
  "general_note_step response nts keyword =
     (if js_includes (toLowerCase response) (S keyword) then
        (case indexOf (toLowerCase response) (S keyword) of
           None \<Rightarrow> nts
         | Some keywordIndex \<Rightarrow>
             (let beforeContext = substring response (keywordIndex - 50) keywordIndex;
                  afterContext = substring response keywordIndex
                                   (min (length response) (keywordIndex + 100));
                  noteContent = trim (S ''Documentation: '' @ trim beforeContext @ S '' ''
                                        @ trim afterContext)
              in if length noteContent > 20
                 then nts @ [Obj [ (S ''content'', Str noteContent),
                                   (S ''position'', default_position) ]]
                 else nts))
      else nts)"

definition extractGeneralSuggestions :: "jsstring \<Rightarrow> general_suggestions" where
  "extractGeneralSuggestions response =
     \<lparr> gs_tables = foldl (general_table_step response) [] commonTableNames,
       gs_relationships = foldl (general_rel_step response) [] relationshipKeywords,
       gs_notes = foldl (general_note_step response) [] noteKeywords \<rparr>"

subsection \<open>The parser\<close>

text \<open>The stages before the general advice, in the order of the source.\<close>

definition specific_suggestions :: "jsstring \<Rightarrow> exn + suggestions" where
  "specific_suggestions response =
     (case rel_stage response
             (table_stage response (sql_stage response (json_stage response no_suggestions))) of
        Inl e \<Rightarrow> Inl e
      | Inr sg \<Rightarrow> Inr (note_stage response sg))"

text \<open>\<^verbatim>\<open>suggestions.tables.length === 0 && suggestions.relationships.length === 0 &&
  suggestions.notes.length === 0\<close>\<close>

definition no_specific :: "suggestions \<Rightarrow> bool" where
  "no_specific sg = (sg_tables sg = [] \<and> sg_relationships sg = [] \<and> sg_notes sg = [])"

text \<open>The tables and relationships of the general advice are pushed; its notes are not.\<close>

definition add_general :: "jsstring \<Rightarrow> suggestions \<Rightarrow> suggestions" where
  "add_general response sg =
     (let generalSuggestions = extractGeneralSuggestions response
      in sg\<lparr> sg_tables := sg_tables sg @ gs_tables generalSuggestions,
              sg_relationships := sg_relationships sg @ gs_relationships generalSuggestions \<rparr>)"

definition parseAIResponse :: "jsstring \<Rightarrow> exn + suggestions" where
  "parseAIResponse response =
     (case specific_suggestions response of
        Inl e \<Rightarrow> Inl e
      | Inr sg \<Rightarrow> Inr (if no_specific sg then add_general response sg else sg))"

subsection \<open>The parser on an engine that limits the arguments of a call\<close>

text \<open>
  \<^verbatim>\<open>xs.push(...ys)\<close> is one call with every element of \<open>ys\<close> as an argument. The language
  sets no bound on the number of arguments; an engine has one, and raises a RangeError
  beyond it, before anything is pushed. The bound is a parameter \<open>maxArgs\<close>: \<open>Some l\<close> for an
  engine that takes at most \<open>l\<close> arguments, \<open>None\<close> for no bound.
\<close>

definition spread_push :: "nat option \<Rightarrow> 'a list \<Rightarrow> 'a list \<Rightarrow> exn + 'a list" where
  "spread_push maxArgs xs ys =
     (case maxArgs of
        None \<Rightarrow> Inr (xs @ ys)
      | Some l \<Rightarrow> if l < length ys then Inl RangeError else Inr (xs @ ys))"

text \<open>The loop over the JSON blocks: the \<^verbatim>\<open>try\<close> around the body catches the RangeError as
  it catches the others, and what was pushed before stays.\<close>

definition json_block_limited :: "nat option \<Rightarrow> suggestions \<Rightarrow> jsstring \<Rightarrow> suggestions" where
  "json_block_limited maxArgs sg m =
     (case JSON_parse (json_content m) of
        None \<Rightarrow> sg
      | Some parsed \<Rightarrow>
          (case get_prop parsed ''tables'' of
             Inl e \<Rightarrow> sg
           | Inr ts \<Rightarrow>
               (case spread_push maxArgs (sg_tables sg) (array_elems ts) of
                  Inl e \<Rightarrow> sg
                | Inr tabs \<Rightarrow>
                    (let sg1 = sg\<lparr>sg_tables := tabs\<rparr>
                     in case get_prop parsed ''relationships'' of
                          Inl e \<Rightarrow> sg1
                        | Inr rs \<Rightarrow>
                            (case spread_push maxArgs (sg_relationships sg1) (array_elems rs) of
                               Inl e \<Rightarrow> sg1
                             | Inr rels \<Rightarrow>
                                 (let sg2 = sg1\<lparr>sg_relationships := rels\<rparr>
                                  in case get_prop parsed ''notes'' of
                                       Inl e \<Rightarrow> sg2
                                     | Inr ns \<Rightarrow>
                                         (case spread_push maxArgs (sg_notes sg2) (array_elems ns) of
                                            Inl e \<Rightarrow> sg2
                                          | Inr nts \<Rightarrow> sg2\<lparr>sg_notes := nts\<rparr>)))))))"

definition json_stage_limited :: "nat option \<Rightarrow> jsstring \<Rightarrow> suggestions \<Rightarrow> suggestions" where
  "json_stage_limited maxArgs response sg =
     foldl (json_block_limited maxArgs) sg (js_match response json_fence)"

text \<open>The three loops over the patterns: no \<^verbatim>\<open>try\<close> is around their \<^verbatim>\<open>push\<close>.\<close>

definition table_step_limited ::
  "nat option \<Rightarrow> jsstring \<Rightarrow> suggestions \<Rightarrow> rx \<Rightarrow> exn + suggestions" where
  "table_step_limited maxArgs response sg pattern =
     (let matches = js_match response pattern
      in if matches = [] then Inr sg
         else (case spread_push maxArgs (sg_tables sg) (map basic_table matches) of
                 Inl e \<Rightarrow> Inl e
               | Inr tabs \<Rightarrow> Inr (sg\<lparr>sg_tables := tabs\<rparr>)))"

definition table_stage_limited :: "nat option \<Rightarrow> jsstring \<Rightarrow> suggestions \<Rightarrow> exn + suggestions" where
  "table_stage_limited maxArgs response sg =
     fold_exn (table_step_limited maxArgs response) sg tablePatterns"

definition rel_step_limited ::
  "nat option \<Rightarrow> jsstring \<Rightarrow> suggestions \<Rightarrow> rx \<Rightarrow> exn + suggestions" where
  "rel_step_limited maxArgs response sg pattern =
     (let matches = js_match response pattern
      in if matches = [] then Inr sg
         else (case map_exn rel_of_match matches of
                 Inl e \<Rightarrow> Inl e
               | Inr rels \<Rightarrow>
                   (case spread_push maxArgs (sg_relationships sg)
                           (List.map_filter (\<lambda>r. r) rels) of
                      Inl e \<Rightarrow> Inl e
                    | Inr rs \<Rightarrow> Inr (sg\<lparr>sg_relationships := rs\<rparr>))))"

definition rel_stage_limited :: "nat option \<Rightarrow> jsstring \<Rightarrow> suggestions \<Rightarrow> exn + suggestions" where
  "rel_stage_limited maxArgs response sg =
     fold_exn (rel_step_limited maxArgs response) sg relPatterns"

definition note_step_limited ::
  "nat option \<Rightarrow> jsstring \<Rightarrow> suggestions \<Rightarrow> rx \<Rightarrow> exn + suggestions" where
  "note_step_limited maxArgs response sg pattern =
     (let matches = js_match response pattern
      in if matches = [] then Inr sg
         else (case spread_push maxArgs (sg_notes sg) (map note_of_match matches) of
                 Inl e \<Rightarrow> Inl e
               | Inr nts \<Rightarrow> Inr (sg\<lparr>sg_notes := nts\<rparr>)))"

definition note_stage_limited :: "nat option \<Rightarrow> jsstring \<Rightarrow> suggestions \<Rightarrow> exn + suggestions" where
  "note_stage_limited maxArgs response sg =
     fold_exn (note_step_limited maxArgs response) sg notePatterns"

definition add_general_limited :: "nat option \<Rightarrow> jsstring \<Rightarrow> suggestions \<Rightarrow> exn + suggestions" where
  "add_general_limited maxArgs response sg =
     (let generalSuggestions = extractGeneralSuggestions response
      in case spread_push maxArgs (sg_tables sg) (gs_tables generalSuggestions) of
           Inl e \<Rightarrow> Inl e
         | Inr tabs \<Rightarrow>
             (case spread_push maxArgs (sg_relationships sg) (gs_relationships generalSuggestions) of
                Inl e \<Rightarrow> Inl e
              | Inr rels \<Rightarrow> Inr (sg\<lparr> sg_tables := tabs, sg_relationships := rels \<rparr>)))"

definition parseAIResponse_limited :: "nat option \<Rightarrow> jsstring \<Rightarrow> exn + suggestions" where
  "parseAIResponse_limited maxArgs response =
     (case table_stage_limited maxArgs response
             (sql_stage response (json_stage_limited maxArgs response no_suggestions)) of
        Inl e \<Rightarrow> Inl e
      | Inr sg1 \<Rightarrow>
          (case rel_stage_limited maxArgs response sg1 of
             Inl e \<Rightarrow> Inl e
           | Inr sg2 \<Rightarrow>
               (case note_stage_limited maxArgs response sg2 of
                  Inl e \<Rightarrow> Inl e
                | Inr sg \<Rightarrow>
                    if no_specific sg then add_general_limited maxArgs response sg else Inr sg)))"

section \<open>The diagram store and its history\<close>

text \<open>The constants \<^verbatim>\<open>Action\<close> and \<^verbatim>\<open>ObjectType\<close> of \<^verbatim>\<open>data/constants\<close>, by the members
  that the code names, and an entry of the undo stack as \<open>applyTableSuggestion\<close> builds it.\<close>

datatype action = ADD | EDIT

datatype element = TABLE | RELATIONSHIP | NOTE

record undo_entry =
  u_action :: action
  u_element :: element
  u_message :: jv
  u_data :: jv

record diagram =
  dg_tables :: "dtable list"
  dg_relationships :: "drel list"
  dg_notes :: "dnote list"
  dg_undoStack :: "undo_entry list"
  dg_redoStack :: "undo_entry list"

text \<open>
  Modelled from the spec: the history side of the diagram store's mutation interface,
  which is not among the sources. With \<^verbatim>\<open>skipHistory\<close> the history is left alone;
  without it the change is a new forward operation, which the undo stack logs and which
  clears the redo stack.
\<close>

definition record_history :: "element \<Rightarrow> bool \<Rightarrow> diagram \<Rightarrow> diagram" where
  "record_history el skipHistory dg =
     (if skipHistory then dg
      else dg\<lparr> dg_undoStack := dg_undoStack dg
                  @ [\<lparr> u_action = ADD, u_element = el, u_message = Undefined,
                        u_data = Undefined \<rparr>],
                dg_redoStack := [] \<rparr>)"

text \<open>
  Modelled from the spec: \<^verbatim>\<open>addTable(table, skipHistory?)\<close> of the diagram store, which
  is not among the sources. A call is one change of the diagram: the table is appended.
\<close>

definition addTable :: "dtable \<Rightarrow> bool \<Rightarrow> diagram \<Rightarrow> diagram" where
  "addTable table skipHistory dg =
     record_history TABLE skipHistory (dg\<lparr>dg_tables := dg_tables dg @ [table]\<rparr>)"

text \<open>
  Modelled from the spec: \<^verbatim>\<open>addRelationship(relationship, skipHistory?)\<close> of the diagram
  store, which is not among the sources. The relationship is appended.
\<close>

definition addRelationship :: "drel \<Rightarrow> bool \<Rightarrow> diagram \<Rightarrow> diagram" where
  "addRelationship rel skipHistory dg =
     record_history RELATIONSHIP skipHistory
       (dg\<lparr>dg_relationships := dg_relationships dg @ [rel]\<rparr>)"

text \<open>
  Modelled from the spec: \<^verbatim>\<open>addNote(note, skipHistory?)\<close> of the diagram store, which is
  not among the sources. The note is appended.
\<close>

definition addNote :: "dnote \<Rightarrow> bool \<Rightarrow> diagram \<Rightarrow> diagram" where
  "addNote note skipHistory dg =
     record_history NOTE skipHistory (dg\<lparr>dg_notes := dg_notes dg @ [note]\<rparr>)"

section \<open>Suggestion Applier: \<^verbatim>\<open>handleApplySuggestion\<close> (AIChatPanel)\<close>

text \<open>
  The error strings, by their template and the values put into it (the text of
  \<^verbatim>\<open>error.message\<close> is the engine's).
\<close>

datatype apply_error =
    FailedToAddTable jv
  | CouldNotFindTables jv jv
  | CouldNotFindFields jv jv
  | FailedToAddRelationship jv jv
  | FailedToAddNote

text \<open>
  The state of one run: the store, the two local variables \<^verbatim>\<open>appliedCount\<close> and
  \<^verbatim>\<open>errors\<close>, the local list \<^verbatim>\<open>addedTables\<close>, and the number of calls of \<^verbatim>\<open>nanoid()\<close>
  so far. The identifier source is a parameter \<open>nanoid\<close>: its \<open>k\<close>-th call returns
  \<open>nanoid k\<close>.
\<close>

record apply_state =
  ap_diagram :: diagram
  ap_appliedCount :: nat
  ap_errors :: "apply_error list"
  ap_addedTables :: "dtable list"
  ap_ids :: nat

text \<open>A property of a value known to be neither \<^verbatim>\<open>null\<close> nor \<^verbatim>\<open>undefined\<close>.\<close>

definition the_prop :: "jv \<Rightarrow> string \<Rightarrow> jv" where
  "the_prop v k = (case get_prop v k of Inl e \<Rightarrow> Undefined | Inr x \<Rightarrow> x)"

definition new_field :: "jsstring \<Rightarrow> jv \<Rightarrow> dfield" where
  "new_field i field =
     \<lparr> f_id = i,
       f_name = the_prop field ''name'',
       f_type = the_prop field ''type'',
       f_default = js_or (the_prop field ''defaultValue'') (Str []),
       f_check = Str [],
       f_primary = js_or (the_prop field ''primaryKey'') (Bool False),
       f_unique = js_or (the_prop field ''unique'') (Bool False),
       f_notNull = js_or (the_prop field ''notNull'') (Bool False),
       f_increment = js_or (the_prop field ''increment'') (Bool False),
       f_comment = js_or (the_prop field ''comment'') (Str []) \<rparr>"

text \<open>
  \<^verbatim>\<open>tableData.fields.map(field => ({id: nanoid(), name: field.name, ...}))\<close> from the
  \<open>k\<close>-th identifier on. Reading \<^verbatim>\<open>field.name\<close> raises for a \<^verbatim>\<open>null\<close> entry, after
  \<^verbatim>\<open>nanoid()\<close> was called for it. The second component counts the calls.
\<close>

fun new_fields :: "(nat \<Rightarrow> jsstring) \<Rightarrow> nat \<Rightarrow> jv list \<Rightarrow> (exn + dfield list) \<times> nat" where
  "new_fields nanoid k [] = (Inr [], k)"
| "new_fields nanoid k (field # fs) =
     (case get_prop field ''name'' of
        Inl e \<Rightarrow> (Inl e, Suc k)
      | Inr _ \<Rightarrow>
          (case new_fields nanoid (Suc k) fs of
             (Inl e, k') \<Rightarrow> (Inl e, k')
           | (Inr ds, k') \<Rightarrow> (Inr (new_field (nanoid k) field # ds), k')))"

text \<open>\<^verbatim>\<open>tables.find(t => t.name === v)\<close>\<close>

definition find_table :: "dtable list \<Rightarrow> jv \<Rightarrow> dtable option" where
  "find_table tables v = find (\<lambda>t. strict_eq (t_name t) v) tables"

text \<open>
  The body of the loop over \<^verbatim>\<open>suggestions.tables\<close>, with its \<^verbatim>\<open>try\<close> and \<^verbatim>\<open>catch\<close>.
  \<open>tables\<close> is the list the component was rendered with. \<open>Inr\<close> is the state the loop
  goes on with; \<open>Inl\<close> is the state in which an exception left the \<^verbatim>\<open>catch\<close> block
  itself, which reads \<^verbatim>\<open>tableData.name\<close> again.
\<close>

definition apply_table ::
  "(nat \<Rightarrow> jsstring) \<Rightarrow> dtable list \<Rightarrow> apply_state \<Rightarrow> jv \<Rightarrow> apply_state + apply_state" where
  "apply_table nanoid tables st tableData =
     (case get_prop tableData ''name'' of
        Inl e \<Rightarrow> if tables = [] then Inl (st\<lparr>ap_ids := Suc (ap_ids st)\<rparr>) else Inl st
      | Inr nm \<Rightarrow>
          (case find_table tables nm of
             Some existingTable \<Rightarrow> Inr st
           | None \<Rightarrow>
               (case the_prop tableData ''fields'' of
                  Arr fs \<Rightarrow>
                    (case new_fields nanoid (Suc (ap_ids st)) fs of
                       (Inl e, k) \<Rightarrow>
                         Inr (st\<lparr> ap_ids := k,
                                  ap_errors := ap_errors st @ [FailedToAddTable nm] \<rparr>)
                     | (Inr ds, k) \<Rightarrow>
                         (let newTable =
                            \<lparr> t_id = nanoid (ap_ids st), t_name = nm,
                              t_x = 100 + int (ap_appliedCount st) * 300, t_y = 100,
                              t_locked = False, t_fields = Some ds,
                              t_comment = js_or (the_prop tableData ''comment'') (Str []),
                              t_indices = [], t_color = S ''#ffffff'',
                              t_position = Undefined \<rparr>
                          in Inr (st\<lparr> ap_diagram := addTable newTable True (ap_diagram st),
                                       ap_addedTables := ap_addedTables st @ [newTable],
                                       ap_appliedCount := Suc (ap_appliedCount st),
                                       ap_ids := k \<rparr>)))
                | _ \<Rightarrow>
                    Inr (st\<lparr> ap_ids := Suc (ap_ids st),
                             ap_errors := ap_errors st @ [FailedToAddTable nm] \<rparr>))))"

text \<open>\<^verbatim>\<open>fields.find(f => f.name === n) || fields.find(f => f.primary) || fields[0]\<close>\<close>

definition find_field :: "dfield list \<Rightarrow> jv \<Rightarrow> dfield option" where
  "find_field fs n =
     (case find (\<lambda>f. strict_eq (f_name f) n) fs of
        Some f \<Rightarrow> Some f
      | None \<Rightarrow>
          (case find (\<lambda>f. truthy (f_primary f)) fs of
             Some f \<Rightarrow> Some f
           | None \<Rightarrow> (case fs of [] \<Rightarrow> None | f # _ \<Rightarrow> Some f)))"

text \<open>The body of the loop over \<^verbatim>\<open>suggestions.relationships\<close>. A table without a
  \<^verbatim>\<open>fields\<close> array makes \<^verbatim>\<open>fields.find\<close> raise, which the \<^verbatim>\<open>catch\<close> records.\<close>

definition apply_relationship ::
  "(nat \<Rightarrow> jsstring) \<Rightarrow> dtable list \<Rightarrow> apply_state \<Rightarrow> jv \<Rightarrow> apply_state + apply_state" where
  "apply_relationship nanoid tables st relData =
     (case get_prop relData ''fromTable'' of
        Inl e \<Rightarrow> Inl st
      | Inr fromT \<Rightarrow>
          (let toT = the_prop relData ''toTable'';
               allTables = tables @ ap_addedTables st
           in case (find_table allTables fromT, find_table allTables toT) of
                (Some sourceTable, Some targetTable) \<Rightarrow>
                  (case (t_fields sourceTable, t_fields targetTable) of
                     (Some sfs, Some tfs) \<Rightarrow>
                       (case (find_field sfs (the_prop relData ''fromField''),
                              find_field tfs (the_prop relData ''toField'')) of
                          (Some sourceField, Some targetField) \<Rightarrow>
                            (let relationshipId = nanoid (ap_ids st);
                                 newRelationship =
                                   \<lparr> r_id = relationshipId,
                                     r_name = Str (S ''rel_'' @ relationshipId),
                                     r_startTableId = t_id sourceTable,
                                     r_endTableId = t_id targetTable,
                                     r_startFieldId = f_id sourceField,
                                     r_endFieldId = f_id targetField,
                                     r_cardinality = js_or (the_prop relData ''cardinality'')
                                                       (Str (S ''one_to_many'')),
                                     r_constraint = js_or (the_prop relData ''constraint'')
                                                      (Str (S ''No action'')),
                                     r_color = S ''#000000'' \<rparr>
                             in Inr (st\<lparr> ap_diagram :=
                                            addRelationship newRelationship True (ap_diagram st),
                                          ap_appliedCount := Suc (ap_appliedCount st),
                                          ap_ids := Suc (ap_ids st) \<rparr>))
                        | _ \<Rightarrow>
                            Inr (st\<lparr>ap_errors := ap_errors st @ [CouldNotFindFields fromT toT]\<rparr>))
                   | _ \<Rightarrow>
                       Inr (st\<lparr>ap_errors := ap_errors st @ [FailedToAddRelationship fromT toT]\<rparr>))
              | _ \<Rightarrow> Inr (st\<lparr>ap_errors := ap_errors st @ [CouldNotFindTables fromT toT]\<rparr>)))"

text \<open>\<^verbatim>\<open>noteData.position?.x\<close>\<close>

definition position_prop :: "jv \<Rightarrow> string \<Rightarrow> jv" where
  "position_prop noteData k =
     (case the_prop noteData ''position'' of
        Undefined \<Rightarrow> Undefined
      | Null \<Rightarrow> Undefined
      | pos \<Rightarrow> the_prop pos k)"

text \<open>
  The body of the loop over \<^verbatim>\<open>suggestions.notes\<close>. \<^verbatim>\<open>nanoid()\<close> is called first. The
  logging line after \<^verbatim>\<open>addNote\<close> calls \<^verbatim>\<open>newNote.content.substring\<close>, which raises
  unless the content is a string: the note is in the diagram then, and not counted.
\<close>

definition apply_note ::
  "(nat \<Rightarrow> jsstring) \<Rightarrow> apply_state \<Rightarrow> jv \<Rightarrow> apply_state + apply_state" where
  "apply_note nanoid st noteData =
     (case get_prop noteData ''content'' of
        Inl e \<Rightarrow> Inr (st\<lparr> ap_ids := Suc (ap_ids st),
                           ap_errors := ap_errors st @ [FailedToAddNote] \<rparr>)
      | Inr content \<Rightarrow>
          (let newNote =
             \<lparr> n_id = nanoid (ap_ids st), n_content = content,
               n_x = js_or (position_prop noteData ''x'')
                       (Num (of_nat (100 + ap_appliedCount st * 200))),
               n_y = js_or (position_prop noteData ''y'')
                       (Num (of_nat (100 + ap_appliedCount st * 100))),
               n_width = 200, n_height = 100, n_color = S ''#ffffcc'',
               n_position = Undefined \<rparr>;
               st' = st\<lparr> ap_diagram := addNote newNote True (ap_diagram st),
                         ap_ids := Suc (ap_ids st) \<rparr>
           in case content of
                Str c \<Rightarrow> Inr (st'\<lparr>ap_appliedCount := Suc (ap_appliedCount st')\<rparr>)
              | _ \<Rightarrow> Inr (st'\<lparr>ap_errors := ap_errors st' @ [FailedToAddNote]\<rparr>)))"

text \<open>A \<^verbatim>\<open>for\<close> loop that an escaping exception ends.\<close>

fun loop :: "('s \<Rightarrow> 'a \<Rightarrow> 's + 's) \<Rightarrow> 's \<Rightarrow> 'a list \<Rightarrow> 's + 's" where
  "loop body st [] = Inr st"
| "loop body st (x # xs) =
     (case body st x of Inl st' \<Rightarrow> Inl st' | Inr st' \<Rightarrow> loop body st' xs)"

text \<open>
  The result of \<^verbatim>\<open>handleApplySuggestion\<close>: the state reached, and whether the outer
  \<^verbatim>\<open>catch\<close> ran (\<^verbatim>\<open>setErrorState\<close>). The chat messages that report the counts are not
  modelled.
\<close>

record apply_result =
  res_state :: apply_state
  res_failed :: bool

definition initial_state :: "diagram \<Rightarrow> apply_state" where
  "initial_state dg =
     \<lparr> ap_diagram = dg, ap_appliedCount = 0, ap_errors = [], ap_addedTables = [],
       ap_ids = 0 \<rparr>"

text \<open>Tables first, then relationships, then notes.\<close>

definition apply_suggestions ::
  "(nat \<Rightarrow> jsstring) \<Rightarrow> suggestions \<Rightarrow> diagram \<Rightarrow> apply_result" where
  "apply_suggestions nanoid suggestions dg =
     (case loop (apply_table nanoid (dg_tables dg)) (initial_state dg) (sg_tables suggestions) of
        Inl st \<Rightarrow> \<lparr> res_state = st, res_failed = True \<rparr>
      | Inr st1 \<Rightarrow>
          (case loop (apply_relationship nanoid (dg_tables dg)) st1
                  (sg_relationships suggestions) of
             Inl st \<Rightarrow> \<lparr> res_state = st, res_failed = True \<rparr>
           | Inr st2 \<Rightarrow>
               (case loop (apply_note nanoid) st2 (sg_notes suggestions) of
                  Inl st \<Rightarrow> \<lparr> res_state = st, res_failed = True \<rparr>
                | Inr st3 \<Rightarrow> \<lparr> res_state = st3, res_failed = False \<rparr>)))"

definition handleApplySuggestion ::
  "(nat \<Rightarrow> jsstring) \<Rightarrow> jsstring \<Rightarrow> diagram \<Rightarrow> apply_result" where
  "handleApplySuggestion nanoid content dg =
     (case parseAIResponse content of
        Inl e \<Rightarrow> \<lparr> res_state = initial_state dg, res_failed = True \<rparr>
      | Inr suggestions \<Rightarrow> apply_suggestions nanoid suggestions dg)"

section \<open>Single suggestions: \<^verbatim>\<open>applyTableSuggestion\<close> (aiActions.js)\<close>

text \<open>
  The function receives its collaborators in an object; they are parameters here, over
  any store \<open>'w\<close>: \<open>addT\<close> is \<^verbatim>\<open>addTable\<close> called with the table only, \<open>setUndo\<close> is
  \<^verbatim>\<open>setUndoStack\<close> called with an updater, \<open>setRedo\<close> is \<^verbatim>\<open>setRedoStack\<close>, and \<open>tr\<close>
  is the translation \<^verbatim>\<open>t\<close> of the message for a table name.
\<close>

fun suggested_fields :: "jv list \<Rightarrow> exn + jv list" where
  "suggested_fields [] = Inr []"
| "suggested_fields (field # fs) =
     (case get_prop field ''name'' of
        Inl e \<Rightarrow> Inl e
      | Inr nm \<Rightarrow>
          (case suggested_fields fs of
             Inl e \<Rightarrow> Inl e
           | Inr ds \<Rightarrow>
               Inr (Obj [ (S ''name'', nm),
                          (S ''type'', the_prop field ''type''),
                          (S ''primaryKey'', js_or (the_prop field ''primaryKey'') (Bool False)),
                          (S ''notNull'', js_or (the_prop field ''notNull'') (Bool False)),
                          (S ''unique'', js_or (the_prop field ''unique'') (Bool False)),
                          (S ''comment'', js_or (the_prop field ''comment'') (Str [])) ] # ds)))"

text \<open>\<open>None\<close> is \<^verbatim>\<open>{success: false, ...}\<close>, from the \<^verbatim>\<open>catch\<close>; \<open>Some\<close> holds the new table.\<close>

definition applyTableSuggestion ::
  "jv \<Rightarrow> (jv \<Rightarrow> 'w \<Rightarrow> 'w) \<Rightarrow> ((undo_entry list \<Rightarrow> undo_entry list) \<Rightarrow> 'w \<Rightarrow> 'w)
     \<Rightarrow> (undo_entry list \<Rightarrow> 'w \<Rightarrow> 'w) \<Rightarrow> (jv \<Rightarrow> jv) \<Rightarrow> 'w \<Rightarrow> jv option \<times> 'w" where
  "applyTableSuggestion tableData addT setUndo setRedo tr w =
     (case get_prop tableData ''name'' of
        Inl e \<Rightarrow> (None, w)
      | Inr nm \<Rightarrow>
          (case the_prop tableData ''fields'' of
             Arr fs \<Rightarrow>
               (if \<not> truthy nm then (None, w)
                else case suggested_fields fs of
                       Inl e \<Rightarrow> (None, w)
                     | Inr ds \<Rightarrow>
                         (let newTable =
                            Obj [ (S ''name'', nm),
                                  (S ''fields'', Arr ds),
                                  (S ''comment'', js_or (the_prop tableData ''comment'') (Str [])),
                                  (S ''position'', js_or (the_prop tableData ''position'')
                                                     default_position) ]
                          in (Some newTable,
                              setRedo []
                                (setUndo (\<lambda>prev. prev @ [\<lparr> u_action = ADD, u_element = TABLE,
                                                           u_message = tr nm,
                                                           u_data = newTable \<rparr>])
                                   (addT newTable w)))))
           | _ \<Rightarrow> (None, w)))"

section \<open>Notions used in the proofs\<close>

text \<open>The text \<open>t\<close> starts with one of \<^verbatim>\<open>to\<close>, \<^verbatim>\<open>->\<close>, \<^verbatim>\<open>references\<close>, \<^verbatim>\<open>with\<close>, in any case
  of letters.\<close>

definition rel_word_at :: "jsstring \<Rightarrow> bool" where
  "rel_word_at t =
     (lit_prefix unit_is_i ''to'' t \<or> lit_prefix unit_is_i ''->'' t
      \<or> lit_prefix unit_is_i ''references'' t \<or> lit_prefix unit_is_i ''with'' t)"

text \<open>Every match of \<open>r\<close> has one of these words inside the matched text.\<close>

definition through_rel_word :: "rx \<Rightarrow> bool" where
  "through_rel_word r =
     (\<forall>prev s n. n \<in> set (paths r prev s) \<longrightarrow> (\<exists>k. rel_word_at (drop k (take n s))))"

text \<open>What each heuristic stage finds in a text, as lists.\<close>

definition tables_found :: "jsstring \<Rightarrow> jv list" where
  "tables_found response =
     concat (map (\<lambda>pattern. map basic_table (js_match response pattern)) tablePatterns)"

definition rels_found :: "jsstring \<Rightarrow> rx \<Rightarrow> jv list" where
  "rels_found response pattern =
     (case map_exn rel_of_match (js_match response pattern) of
        Inl e \<Rightarrow> []
      | Inr rels \<Rightarrow> List.map_filter (\<lambda>r. r) rels)"

definition relationships_found :: "jsstring \<Rightarrow> jv list" where
  "relationships_found response = concat (map (rels_found response) relPatterns)"

definition notes_found :: "jsstring \<Rightarrow> jv list" where
  "notes_found response =
     concat (map (\<lambda>pattern. map note_of_match (js_match response pattern)) notePatterns)"


text \<open>The state that a loop body or a loop ends in, and the history of a state.\<close>

definition reached :: "'s + 's \<Rightarrow> 's" where
  "reached x = (case x of Inl st \<Rightarrow> st | Inr st \<Rightarrow> st)"

definition history :: "apply_state \<Rightarrow> undo_entry list \<times> undo_entry list" where
  "history st = (dg_undoStack (ap_diagram st), dg_redoStack (ap_diagram st))"

section \<open>Example inputs\<close>

text \<open>A diagram with one table \<open>users\<close>, whose field \<open>id\<close> has the identifier \<open>f1\<close>, and
  one relationship from that field to a field of a table that does not exist.\<close>

definition ex_users :: dtable where
  "ex_users =
     \<lparr> t_id = S ''t1'', t_name = Str (S ''users''), t_x = 0, t_y = 0, t_locked = False,
       t_fields = Some [\<lparr> f_id = S ''f1'', f_name = Str (S ''id''),
                          f_type = Str (S ''INTEGER''), f_default = Str [], f_check = Str [],
                          f_primary = Bool True, f_unique = Bool False, f_notNull = Bool False,
                          f_increment = Bool False, f_comment = Str [] \<rparr>],
       t_comment = Str [], t_indices = [], t_color = S ''#ffffff'', t_position = Undefined \<rparr>"

definition ex_rel :: drel where
  "ex_rel =
     \<lparr> r_id = S ''r1'', r_name = Undefined, r_startTableId = S ''t1'',
       r_endTableId = S ''t9'', r_startFieldId = S ''f1'', r_endFieldId = S ''f9'',
       r_cardinality = Str (S ''one_to_many''), r_constraint = Undefined,
       r_color = S ''#000000'' \<rparr>"

definition ex_state :: diagramState where
  "ex_state =
     \<lparr> ds_tables = [ex_users], ds_relationships = [ex_rel], ds_database = Str (S ''generic''),
       ds_areas = [], ds_notes = [], ds_types = Undefined, ds_enums = Undefined \<rparr>"

text \<open>The same diagram with the table's name empty.\<close>

definition ex_unnamed_state :: diagramState where
  "ex_unnamed_state = ex_state\<lparr>ds_tables := [ex_users\<lparr>t_name := Str []\<rparr>]\<rparr>"

text \<open>The two texts of the scenarios, and texts with fenced JSON blocks.\<close>

definition ex_orders_text :: jsstring where
  "ex_orders_text = S ''I recommend adding table orders''"

definition ex_link_text :: jsstring where
  "ex_link_text = S ''link posts to users''"

definition quoted :: "string \<Rightarrow> jsstring" where
  "quoted w = [34] @ S w @ [34]"

definition fenced :: "jsstring \<Rightarrow> jsstring" where
  "fenced body = S ''```json'' @ [10] @ body @ [10] @ S ''```''"

text \<open>\<^verbatim>\<open>{"tables":[{"name":"foo"}]}\<close>, and the value it parses to.\<close>

definition ex_foo_json :: jsstring where
  "ex_foo_json =
     S ''{'' @ quoted ''tables'' @ S '':[{'' @ quoted ''name'' @ S '':'' @ quoted ''foo''
       @ S ''}]}''"



text \<open>A malformed block that holds the word \<open>users\<close>, or the words \<open>add table bar\<close>,
  followed by the well-formed block.\<close>

definition ex_users_text :: jsstring where
  "ex_users_text = fenced (S ''{users'') @ [10] @ fenced ex_foo_json"

definition ex_bar_text :: jsstring where
  "ex_bar_text = fenced (S ''{add table bar'') @ [10] @ fenced ex_foo_json"

text \<open>A text of \<open>k\<close> lines \<^verbatim>\<open>add table t\<close>.\<close>

definition ex_table_lines :: "nat \<Rightarrow> jsstring" where
  "ex_table_lines k = concat (replicate k (S ''add table t'' @ [10]))"

text \<open>The table suggestion with the default fields, as the table heuristics build it.\<close>

definition default_table :: "string \<Rightarrow> jv" where
  "default_table n =
     Obj [ (S ''name'', Str (S n)),
           (S ''fields'', default_fields),
           (S ''comment'', Str (S ''AI-suggested table: '' @ S n)) ]"

text \<open>An empty diagram, one whose redo stack holds an entry, and an identifier source.\<close>

definition empty_diagram :: diagram where
  "empty_diagram =
     \<lparr> dg_tables = [], dg_relationships = [], dg_notes = [], dg_undoStack = [],
       dg_redoStack = [] \<rparr>"

definition ex_undone :: undo_entry where
  "ex_undone = \<lparr> u_action = EDIT, u_element = TABLE, u_message = Undefined, u_data = Undefined \<rparr>"



definition ex_link_rel :: jv where
  "ex_link_rel =
     Obj [ (S ''fromTable'', Str (S ''link posts'')),
           (S ''toTable'', Str (S ''users'')),
           (S ''fromField'', Str (S ''link posts_id'')),
           (S ''toField'', Str (S ''id'')),
           (S ''cardinality'', Str (S ''one_to_many'')),
           (S ''constraint'', Str (S ''No action'')) ]"

section \<open>Context Builder: properties\<close>

lemma find_no_table:
  "(\<forall>t \<in> set tables. t_id t \<noteq> i) \<Longrightarrow> table_name_of tables i = Undefined"
  by (induction tables) (auto simp: table_name_of_def)

lemma find_first_table:
  "find (\<lambda>t. t_id t = i) tables = Some t \<Longrightarrow> table_name_of tables i = t_name t"
  by (simp add: table_name_of_def)

text \<open>
  C7, as the code has it. \<open>buildDiagramContext\<close> is a total function of the diagram
  state: it raises nowhere, also for no tables, and gives one entry for each table and
  each relationship. In the entry of each relationship, a table reference is the string
  \<open>unknown\<close> when no table has that identifier, and otherwise, for the first table with
  that identifier, its name when the name is truthy (not empty) and the string \<open>unknown\<close>
  when it is not. The field references are passed on as they are, as field identifiers.
\<close>

theorem buildDiagramContext_resolves_tables:
  "length (cx_tables (buildDiagramContext d)) = length (ds_tables d)
   \<and> length (cx_relationships (buildDiagramContext d)) = length (ds_relationships d)
   \<and> (\<forall>i < length (ds_relationships d).
        let r = ds_relationships d ! i; c = cx_relationships (buildDiagramContext d) ! i
        in ((\<forall>t \<in> set (ds_tables d). t_id t \<noteq> r_startTableId r)
              \<longrightarrow> cr_fromTable c = Str (S ''unknown''))
         \<and> ((\<forall>t \<in> set (ds_tables d). t_id t \<noteq> r_endTableId r)
              \<longrightarrow> cr_toTable c = Str (S ''unknown''))
         \<and> (\<forall>t. find (\<lambda>t. t_id t = r_startTableId r) (ds_tables d) = Some t
                \<longrightarrow> cr_fromTable c = (if truthy (t_name t) then t_name t
                                         else Str (S ''unknown'')))
         \<and> (\<forall>t. find (\<lambda>t. t_id t = r_endTableId r) (ds_tables d) = Some t
                \<longrightarrow> cr_toTable c = (if truthy (t_name t) then t_name t
                                       else Str (S ''unknown'')))
         \<and> cr_fromField c = Str (r_startFieldId r)
         \<and> cr_toField c = Str (r_endFieldId r))"
  by (simp add: buildDiagramContext_def context_rel_def Let_def js_or_def
      find_no_table find_first_table)

text \<open>
  The theorem of C7 at the examples: the relationship of \<open>ex_state\<close> starts at the table
  \<open>users\<close> and ends at no table; in \<open>ex_unnamed_state\<close> it starts at a table whose name is
  the empty string.
\<close>

theorem buildDiagramContext_resolves_tables_witness:
  "cr_fromTable (cx_relationships (buildDiagramContext ex_state) ! 0) = Str (S ''users'')
   \<and> cr_toTable (cx_relationships (buildDiagramContext ex_state) ! 0) = Str (S ''unknown'')
   \<and> cr_fromField (cx_relationships (buildDiagramContext ex_state) ! 0) = Str (S ''f1'')
   \<and> cr_fromTable (cx_relationships (buildDiagramContext ex_unnamed_state) ! 0)
       = Str (S ''unknown'')"
  using buildDiagramContext_resolves_tables [of ex_state]
    buildDiagramContext_resolves_tables [of ex_unnamed_state]
  by (simp add: ex_state_def ex_unnamed_state_def ex_rel_def ex_users_def Let_def S_def)

text \<open>
  C7 as stated fails where it says that field references are resolved to names: in the
  example the relationship starts at the field named \<open>id\<close>, and the context holds the
  field's identifier \<open>f1\<close>.
\<close>

theorem buildDiagramContext_field_not_resolved:
  "map (\<lambda>f. (f_id f, f_name f)) (the (t_fields ex_users)) = [(S ''f1'', Str (S ''id''))]
   \<and> r_startFieldId ex_rel = S ''f1''
   \<and> cr_fromField (hd (cx_relationships (buildDiagramContext ex_state))) = Str (S ''f1'')
   \<and> cr_fromField (hd (cx_relationships (buildDiagramContext ex_state))) \<noteq> Str (S ''id'')"
  by (simp add: buildDiagramContext_def context_rel_def ex_state_def ex_rel_def
      ex_users_def S_def)

section \<open>\<^verbatim>\<open>JSON.parse\<close>: the bound on nested calls\<close>

text \<open>Each part of the grammar reads at least one code unit.\<close>

lemma skip_ws_Cons: "skip_ws s = c # cs \<Longrightarrow> length cs < length s"
  using length_dropWhile_le [of json_ws s] by (simp add: skip_ws_def)

lemma skip_ws_le: "length (skip_ws s) \<le> length s"
  by (simp add: skip_ws_def length_dropWhile_le)

lemma json_string_rest: "json_string acc s = Some (str, r) \<Longrightarrow> length r < length s"
proof (induction acc s rule: json_string.induct)
  case (1 acc)
  then show ?case by simp
next
  case (2 acc c)
  then show ?case by (simp split: if_splits)
next
  case (3 acc c e r')
  show ?case
  proof (cases "c = 34")
    case True
    with "3.prems" show ?thesis by simp
  next
    case q: False
    show ?thesis
    proof (cases "c = 92")
      case False
      with q "3.prems" "3.IH"(3) show ?thesis by (auto split: if_splits)
    next
      case b: True
      show ?thesis
      proof (cases "e = 117")
        case True
        with q b "3.prems" obtain u where u: "hex4 r' = Some u"
          and j: "json_string (u # acc) (drop 4 r') = Some (str, r)"
          by (auto split: option.splits)
        from "3.IH"(1) [OF q b True u j] show ?thesis by simp
      next
        case False
        with q b "3.prems" obtain u where u: "escape_of e = Some u"
          and j: "json_string (u # acc) r' = Some (str, r)"
          by (auto split: option.splits)
        from "3.IH"(2) [OF q b False u j] show ?thesis by simp
      qed
    qed
  qed
qed

lemma json_number_rest: "json_number s = Some (q, r) \<Longrightarrow> length r < length s"
proof -
  have i: "json_int t = Some (ip, t') \<Longrightarrow> length t' < length t" for t ip t'
    using length_dropWhile_le [of is_digit "tl t"]
    by (cases t) (auto simp: json_int_def split: if_splits)
  have f: "json_frac t = Some (fp, t') \<Longrightarrow> length t' \<le> length t" for t fp t'
    using length_dropWhile_le [of is_digit "tl t"]
    by (cases t) (auto simp: json_frac_def split: if_splits)
  have e: "json_exp t = Some (x, t') \<Longrightarrow> length t' \<le> length t" for t x t'
  proof (cases t)
    case Nil
    then show "json_exp t = Some (x, t') \<Longrightarrow> length t' \<le> length t"
      by (simp add: json_exp_def)
  next
    case (Cons a u)
    show "json_exp t = Some (x, t') \<Longrightarrow> length t' \<le> length t"
      using length_dropWhile_le [of is_digit u] length_dropWhile_le [of is_digit "tl u"]
      by (cases u) (auto simp: json_exp_def Let_def Cons split: if_splits)
  qed
  assume a: "json_number s = Some (q, r)"
  define s1 where "s1 = (if (case s of [] \<Rightarrow> False | g # _ \<Rightarrow> g = 45) then tl s else s)"
  have l1: "length s1 \<le> length s" by (simp add: s1_def)
  from a obtain ip s2 where i1: "json_int s1 = Some (ip, s2)"
    by (cases "json_int s1") (auto simp: json_number_def Let_def s1_def)
  from a i1 obtain fp s3 where f1: "json_frac s2 = Some (fp, s3)"
    by (cases "json_frac s2") (auto simp: json_number_def Let_def s1_def)
  from a i1 f1 obtain x where e1: "json_exp s3 = Some (x, r)"
    by (cases "json_exp s3") (auto simp: json_number_def Let_def s1_def)
  from i [OF i1] f [OF f1] e [OF e1] l1 show ?thesis by simp
qed

lemma json_rest:
  "(json_value n s = Some (v, r) \<longrightarrow> length r < length s)
   \<and> (json_elements n acc s = Some (v, r) \<longrightarrow> length r < length s)
   \<and> (json_members n kvs s = Some (v, r) \<longrightarrow> length r < length s)"
proof (induction n arbitrary: s v r acc kvs)
  case 0
  show ?case by simp
next
  case (Suc n)
  have val: "json_value n s = Some (v, r) \<Longrightarrow> length r < length s" for s v r
    using Suc by blast
  have els: "json_elements n acc s = Some (v, r) \<Longrightarrow> length r < length s" for s v r acc
    using Suc by blast
  have mem: "json_members n kvs s = Some (v, r) \<Longrightarrow> length r < length s" for s v r kvs
    using Suc by blast
  have 1: "json_value (Suc n) s = Some (v, r) \<longrightarrow> length r < length s"
  proof
    assume a: "json_value (Suc n) s = Some (v, r)"
    then obtain c cs where c: "skip_ws s = c # cs"
      by (cases "skip_ws s") auto
    note l = skip_ws_Cons [OF c]
    from a c l show "length r < length s"
      by (auto split: if_splits list.splits option.splits prod.splits
          dest!: mem els json_string_rest json_number_rest skip_ws_Cons)
  qed
  have 2: "json_elements (Suc n) acc s = Some (v, r) \<longrightarrow> length r < length s"
    by (auto split: if_splits list.splits option.splits prod.splits
          dest!: val els skip_ws_Cons)
  have 3: "json_members (Suc n) kvs s = Some (v, r) \<longrightarrow> length r < length s"
    by (auto split: if_splits list.splits option.splits prod.splits
          dest!: val mem skip_ws_Cons json_string_rest)
  from 1 2 3 show ?case by blast
qed


text \<open>
  A bound of more than twice the length of the text is never reached: with a larger
  one the result is the same. \<open>JSON_parse\<close> starts with such a bound, so it answers
  \<open>None\<close> for a malformed text only.
\<close>

lemma json_fuel:
  "(2 * length s + 1 \<le> n \<longrightarrow> json_value (Suc n) s = json_value n s)
   \<and> (2 * length s + 2 \<le> n \<longrightarrow> json_elements (Suc n) acc s = json_elements n acc s)
   \<and> (2 * length s \<le> n \<and> 0 < n \<longrightarrow> json_members (Suc n) kvs s = json_members n kvs s)"
proof (induction n arbitrary: s acc kvs)
  case 0
  show ?case by simp
next
  case (Suc n)
  have val: "2 * length s + 1 \<le> n \<Longrightarrow> json_value (Suc n) s = json_value n s" for s
    using Suc by blast
  have els: "2 * length s + 2 \<le> n \<Longrightarrow> json_elements (Suc n) acc s = json_elements n acc s"
    for s acc using Suc by blast
  have mem: "2 * length s \<le> n \<Longrightarrow> 0 < n \<Longrightarrow> json_members (Suc n) kvs s = json_members n kvs s"
    for s kvs using Suc by blast
  have rv: "json_value m s = Some (v, r) \<Longrightarrow> length r < length s" for m s v r
    using json_rest by blast
  have 1: "2 * length s + 1 \<le> Suc n \<longrightarrow> json_value (Suc (Suc n)) s = json_value (Suc n) s"
  proof
    assume b: "2 * length s + 1 \<le> Suc n"
    note u = json_value.simps(2) [of "Suc n" s] json_value.simps(2) [of n s]
    show "json_value (Suc (Suc n)) s = json_value (Suc n) s"
    proof (cases "skip_ws s")
      case Nil
      then show ?thesis by (simp only: u list.case)
    next
      case (Cons c cs)
      from skip_ws_Cons [OF Cons] b have l: "2 * length cs + 2 \<le> n" by simp
      then have m: "json_members (Suc n) [] cs = json_members n [] cs"
        and e: "json_elements (Suc n) [] cs = json_elements n [] cs"
        using mem [of cs "[]"] els [of cs "[]"] by simp_all
      show ?thesis by (simp only: u Cons list.case m e)
    qed
  qed
  have 2: "2 * length s + 2 \<le> Suc n \<longrightarrow>
      json_elements (Suc (Suc n)) acc s = json_elements (Suc n) acc s"
  proof
    assume b: "2 * length s + 2 \<le> Suc n"
    then have v: "json_value (Suc n) s = json_value n s" using val [of s] by simp
    note u = json_elements.simps(2) [of "Suc n" acc s] json_elements.simps(2) [of n acc s]
    show "json_elements (Suc (Suc n)) acc s = json_elements (Suc n) acc s"
    proof (cases "json_value n s")
      case None
      show ?thesis by (simp only: u v None option.case)
    next
      case (Some p)
      obtain x r where p: "p = (x, r)" by (cases p)
      from rv [of n s x r] Some p have lr: "length r < length s" by simp
      show ?thesis
      proof (cases "skip_ws r")
        case Nil
        show ?thesis by (simp only: u v Some p option.case prod.case Nil list.case)
      next
        case (Cons d r')
        from skip_ws_Cons [OF Cons] lr b have "2 * length r' + 2 \<le> n" by simp
        then have e: "json_elements (Suc n) (acc @ [x]) r' = json_elements n (acc @ [x]) r'"
          using els by simp
        show ?thesis by (simp only: u v Some p option.case prod.case Cons list.case e)
      qed
    qed
  qed
  have 3: "2 * length s \<le> Suc n \<and> 0 < Suc n \<longrightarrow>
      json_members (Suc (Suc n)) kvs s = json_members (Suc n) kvs s"
  proof
    assume b: "2 * length s \<le> Suc n \<and> 0 < Suc n"
    note u = json_members.simps(2) [of "Suc n" kvs s] json_members.simps(2) [of n kvs s]
    show "json_members (Suc (Suc n)) kvs s = json_members (Suc n) kvs s"
    proof (cases "skip_ws s")
      case Nil
      show ?thesis by (simp only: u Nil list.case)
    next
      case s: (Cons q cs)
      show ?thesis
      proof (cases "json_string [] cs")
        case None
        show ?thesis by (simp only: u s list.case None option.case)
      next
        case (Some p)
        obtain k r where p: "p = (k, r)" by (cases p)
        from json_string_rest [of "[]" cs k r] Some p have lr: "length r < length cs" by simp
        show ?thesis
        proof (cases "skip_ws r")
          case Nil
          show ?thesis by (simp only: u s list.case Some p option.case prod.case Nil)
        next
          case c: (Cons col r1)
          from skip_ws_Cons [OF c] skip_ws_Cons [OF s] lr b
          have l1: "2 * length r1 + 1 \<le> n" by simp
          then have v: "json_value (Suc n) r1 = json_value n r1" using val by simp
          show ?thesis
          proof (cases "json_value n r1")
            case None
            show ?thesis by (simp only: u s list.case Some p option.case prod.case c v None)
          next
            case sv: (Some pv)
            obtain x r2 where pv: "pv = (x, r2)" by (cases pv)
            from rv [of n r1 x r2] sv pv have l2: "length r2 < length r1" by simp
            show ?thesis
            proof (cases "skip_ws r2")
              case Nil
              show ?thesis
                by (simp only: u s list.case Some p option.case prod.case c v sv pv Nil)
            next
              case d: (Cons d r3)
              from skip_ws_Cons [OF d] l2 l1 have "2 * length r3 \<le> n \<and> 0 < n" by simp
              then have m: "json_members (Suc n) (obj_put k x kvs) r3
                  = json_members n (obj_put k x kvs) r3"
                using mem by simp
              show ?thesis
                by (simp only: u s list.case Some p option.case prod.case c v sv pv d m)
            qed
          qed
        qed
      qed
    qed
  qed
  from 1 2 3 show ?case by blast
qed

lemma json_value_more_fuel:
  "json_value (Suc (Suc (length s + length s)) + k) s
     = json_value (Suc (Suc (length s + length s))) s"
proof (induction k)
  case 0
  show ?case by (simp only: add_0_right)
next
  case (Suc k)
  have "2 * length s + 1 \<le> Suc (Suc (length s + length s)) + k" by simp
  then have "json_value (Suc (Suc (Suc (length s + length s)) + k)) s
      = json_value (Suc (Suc (length s + length s)) + k) s"
    using json_fuel [of s "Suc (Suc (length s + length s)) + k"] by blast
  with Suc show ?case by (simp only: add_Suc_right)
qed

section \<open>Response Parser: the relationship step never raises\<close>

lemma lit_prefix_take: "lit_prefix eq w s \<Longrightarrow> length w \<le> n \<Longrightarrow> lit_prefix eq w (take n s)"
proof (induction w arbitrary: s n)
  case Nil
  then show ?case by simp
next
  case (Cons c cs)
  then obtain x xs where s: "s = x # xs" by (cases s) auto
  from Cons.prems obtain n' where n: "n = Suc n'" by (cases n) auto
  from Cons show ?case by (auto simp: s n split: if_splits)
qed

lemma paths_rel_word:
  "i \<in> set (paths rel_word prev s) \<Longrightarrow> i \<le> m \<Longrightarrow> rel_word_at (take m s) \<and> 0 < i"
  by (auto simp: rel_word_def rel_word_at_def lit_prefix_take split: if_splits)

lemma in_seq_paths:
  "n \<in> set (seq_paths b prev s ns) \<longleftrightarrow>
     (\<exists>i \<in> set ns. \<exists>j \<in> set (paths b (adv prev s i) (drop i s)). n = i + j)"
  by (induction ns) auto

lemma through_Seq: "through_rel_word b \<Longrightarrow> through_rel_word (Seq a b)"
  unfolding through_rel_word_def
proof (intro allI impI)
  fix prev s n
  assume b: "\<forall>prev s n. n \<in> set (paths b prev s) \<longrightarrow> (\<exists>k. rel_word_at (drop k (take n s)))"
    and n: "n \<in> set (paths (Seq a b) prev s)"
  from n obtain i j where j: "j \<in> set (paths b (adv prev s i) (drop i s))" and nij: "n = i + j"
    by (auto simp: in_seq_paths)
  from b j obtain k where "rel_word_at (drop k (take j (drop i s)))" by blast
  then have "rel_word_at (drop (i + k) (take (i + j) s))"
    by (simp add: drop_take add.commute)
  then show "\<exists>k. rel_word_at (drop k (take n s))" using nij by blast
qed

lemma through_word: "through_rel_word (Seq rel_word c)"
  unfolding through_rel_word_def
proof (intro allI impI)
  fix prev s n
  assume "n \<in> set (paths (Seq rel_word c) prev s)"
  then obtain i j where "i \<in> set (paths rel_word prev s)" and "n = i + j"
    by (auto simp: in_seq_paths)
  then have "rel_word_at (drop 0 (take n s))"
    using paths_rel_word [of i prev s n] by simp
  then show "\<exists>k. rel_word_at (drop k (take n s))" by blast
qed

lemma relPatterns_through: "p \<in> set relPatterns \<Longrightarrow> through_rel_word p"
  by (auto simp: relPatterns_def relPattern0_def relPattern1_def relPattern2_def
      intro!: through_Seq through_word)

lemma match_all_elem:
  "m \<in> set (match_all r prev s) \<Longrightarrow> \<exists>prev' s' n. n \<in> set (paths r prev' s') \<and> m = take n s'"
proof (induction r prev s rule: match_all.induct)
  case (1 r prev)
  then show ?case
    by (auto simp: match_at_def split: list.splits) (metis list.set_intros(1) take_Nil)
next
  case (2 r prev x xs)
  show ?case
  proof (cases "match_at r prev (x # xs)")
    case None
    with 2 show ?thesis by auto
  next
    case (Some n)
    then have n: "n \<in> set (paths r prev (x # xs))"
      by (auto simp: match_at_def split: list.splits)
    show ?thesis
    proof (cases "m \<in> set (match_all r (Some x) xs) \<and> n = 0")
      case True
      with 2 Some show ?thesis by auto
    next
      case False
      with 2 Some have "n = 0 \<and> m = [] \<or> (n \<noteq> 0 \<and> (m = take n (x # xs) \<or>
          m \<in> set (match_all r (adv prev (x # xs) n) (drop n (x # xs)))))"
        by (auto split: if_splits)
      then show ?thesis
      proof (elim disjE conjE)
        assume "n = 0" "m = []"
        with n have "n \<in> set (paths r prev (x # xs)) \<and> m = take n (x # xs)" by simp
        then show ?thesis by blast
      next
        assume "n \<noteq> 0" "m = take n (x # xs)"
        with n show ?thesis by blast
      next
        assume "n \<noteq> 0" "m \<in> set (match_all r (adv prev (x # xs) n) (drop n (x # xs)))"
        with 2 Some show ?thesis by auto
      qed
    qed
  qed
qed

lemma split_from_ne: "split_from r piece prev s \<noteq> []"
  by (induction r piece prev s rule: split_from.induct) (auto split: option.splits)

lemma greedy0_ne: "greedy c 0 u \<noteq> []"
  by (cases u) auto

lemma rel_word_at_Cons: "rel_word_at t \<Longrightarrow> \<exists>x xs. t = x # xs \<and> \<not> is_space x"
  by (cases t) (auto simp: rel_word_at_def unit_is_i_def is_space_def is_upper_def split: if_splits)

lemma rel_word_paths: "rel_word_at t \<Longrightarrow> \<exists>i is. paths rel_word prev t = i # is \<and> 0 < i"
  by (auto simp: rel_word_def rel_word_at_def)

lemma rel_sep_match: 
  assumes "rel_word_at t" shows "\<exists>n. 0 < n \<and> match_at rel_sep prev t = Some n"
proof -
  from assms obtain x xs where t: "t = x # xs" and x: "\<not> is_space x"
    using rel_word_at_Cons by blast
  from assms obtain i "is" where i: "paths rel_word prev t = i # is" "0 < i"
    using rel_word_paths by blast
  obtain g gs where g: "greedy is_space 0 (drop i t) = g # gs"
    using greedy0_ne [of is_space "drop i t"] by (cases "greedy is_space 0 (drop i t)") auto
  have "\<exists>rest. paths rel_sep prev t = (i + g) # rest"
    using x i g by (simp add: rel_sep_def spaces_def t adv_def)
  then show ?thesis using i by (auto simp: match_at_def)
qed

lemma split_two:
  "\<exists>k. rel_word_at (drop k s) \<Longrightarrow> 2 \<le> length (split_from rel_sep piece prev s)"
proof (induction s arbitrary: piece prev)
  case Nil
  then show ?case by (simp add: rel_word_at_def)
next
  case (Cons x xs)
  from Cons.prems obtain k where k: "rel_word_at (drop k (x # xs))" by blast
  show ?case
  proof (cases "match_at rel_sep prev (x # xs)")
    case None
    with k rel_sep_match [of "x # xs" prev] obtain k' where "k = Suc k'"
      by (cases k) auto
    with k have "\<exists>k. rel_word_at (drop k xs)" by auto
    from Cons.IH [OF this] None show ?thesis by simp
  next
    case (Some n)
    show ?thesis
    proof (cases "n = 0")
      case True
      with Some k rel_sep_match [of "x # xs" prev] obtain k' where "k = Suc k'"
        by (cases k) auto
      with k have "\<exists>k. rel_word_at (drop k xs)" by auto
      from Cons.IH [OF this, of "[x]" "Some x"] Some True show ?thesis by auto
    next
      case False
      with Some show ?thesis
        using split_from_ne [of rel_sep "[]" "adv prev (x # xs) n" "drop n (x # xs)"]
        by (cases "split_from rel_sep [] (adv prev (x # xs) n) (drop n (x # xs))") auto
    qed
  qed
qed

lemma rel_of_match_ok:
  assumes "\<exists>k. rel_word_at (drop k m)" shows "\<exists>v. rel_of_match m = Inr v"
proof -
  from assms have ne: "m \<noteq> []" by (auto simp: rel_word_at_def)
  from split_two [OF assms, of "[]" None] ne
  obtain p0 p1 rest where "js_split m rel_sep = p0 # p1 # rest"
    by (cases "js_split m rel_sep"; cases "tl (js_split m rel_sep)") (auto simp: js_split_def)
  then show ?thesis by (simp add: rel_of_match_def Let_def)
qed

lemma map_exn_ok: "\<forall>x \<in> set xs. \<exists>y. f x = Inr y \<Longrightarrow> \<exists>ys. map_exn f xs = Inr ys"
  by (induction xs) auto

lemma rel_matches_ok:
  assumes "p \<in> set relPatterns" shows "\<exists>rels. map_exn rel_of_match (js_match r p) = Inr rels"
proof (rule map_exn_ok, rule ballI)
  fix m assume "m \<in> set (js_match r p)"
  then obtain prev' s' n where n: "n \<in> set (paths p prev' s')" and m: "m = take n s'"
    using match_all_elem by (auto simp: js_match_def) blast
  from relPatterns_through [OF assms] n have "\<exists>k. rel_word_at (drop k (take n s'))"
    by (auto simp: through_rel_word_def)
  with m show "\<exists>y. rel_of_match m = Inr y" using rel_of_match_ok by simp
qed

lemma rel_step_eq:
  assumes "p \<in> set relPatterns"
  shows "rel_step r sg p = Inr (sg\<lparr>sg_relationships := sg_relationships sg @ rels_found r p\<rparr>)"
  using rel_matches_ok [OF assms, of r]
  by (auto simp: rel_step_def rels_found_def Let_def List.map_filter_simps)

lemma rel_stage_eq:
  "rel_stage r sg = Inr (sg\<lparr>sg_relationships := sg_relationships sg @ relationships_found r\<rparr>)"
  by (simp add: rel_stage_def relationships_found_def relPatterns_def rel_step_eq [unfolded relPatterns_def])

section \<open>Response Parser: properties\<close>

lemmas eval_paths =
  arg_cong [where f = paths, OF tablePattern0_def] arg_cong [where f = paths, OF tablePattern1_def]
  arg_cong [where f = paths, OF tablePattern2_def] arg_cong [where f = paths, OF relPattern0_def]
  arg_cong [where f = paths, OF relPattern1_def] arg_cong [where f = paths, OF relPattern2_def]
  arg_cong [where f = paths, OF notePattern0_def] arg_cong [where f = paths, OF notePattern1_def]
  arg_cong [where f = paths, OF notePattern2_def] arg_cong [where f = paths, OF notePattern3_def]
  arg_cong [where f = paths, OF dot_star_def] arg_cong [where f = paths, OF spaces_def]
  arg_cong [where f = paths, OF ident_def] arg_cong [where f = paths, OF ident3_def]
  arg_cong [where f = paths, OF rel_word_def] arg_cong [where f = paths, OF note_verb_def]
  arg_cong [where f = paths, OF note_about_def] arg_cong [where f = paths, OF table_strip_def]
  arg_cong [where f = paths, OF rel_strip_def] arg_cong [where f = paths, OF note_strip_def]
  arg_cong [where f = paths, OF rel_sep_def] arg_cong [where f = paths, OF json_fence_def]
  arg_cong [where f = paths, OF sql_fence_def] arg_cong [where f = paths, OF json_open_def]
  arg_cong [where f = paths, OF sql_open_def] arg_cong [where f = paths, OF fence_close_def]
  arg_cong [where f = paths, OF word_rx_def]

lemmas eval_defs =
  S_def unit_is_i_def unit_is_def is_upper_def is_lower_def is_digit_def dot_def
  is_line_terminator_def is_space_def ident_start_def ident_char_def is_letter_def any_unit_def
  lower_unit_def toLowerCase_def trim_def js_match_def js_replace_def js_test_def js_split_def
  match_at_def adv_def is_word_def js_includes_def substring_def Let_def
  tables_found_def relationships_found_def rels_found_def notes_found_def tablePatterns_def
  relPatterns_def notePatterns_def basic_table_def rel_of_match_def note_of_match_def
  excludeWords_def json_stage_def sql_stage_def json_content_def
  extractGeneralSuggestions_def commonTableNames_def relationshipKeywords_def noteKeywords_def
  general_table_step_def general_rel_step_def general_note_step_def add_general_def
  no_suggestions_def


lemma table_stage_eq:
  "table_stage r sg = sg\<lparr>sg_tables := sg_tables sg @ tables_found r\<rparr>"
  by (simp add: table_stage_def tablePatterns_def table_step_def tables_found_def Let_def)

lemma note_stage_eq:
  "note_stage r sg = sg\<lparr>sg_notes := sg_notes sg @ notes_found r\<rparr>"
  by (simp add: note_stage_def notePatterns_def note_step_def notes_found_def Let_def)



lemma sql_stage_keeps:
  "sg_tables (sql_stage r sg) = sg_tables sg"
  "sg_relationships (sql_stage r sg) = sg_relationships sg"
  "sg_notes (sql_stage r sg) = sg_notes sg"
  "sg_optimizations (sql_stage r sg) = sg_optimizations sg"
  "sg_general (sql_stage r sg) = sg_general sg"
  by (simp_all add: sql_stage_def Let_def)

lemma specific_suggestions_eq:
  "specific_suggestions r =
     Inr ((sql_stage r (json_stage r no_suggestions))
            \<lparr> sg_tables := sg_tables (json_stage r no_suggestions) @ tables_found r,
              sg_relationships := sg_relationships (json_stage r no_suggestions)
                                    @ relationships_found r,
              sg_notes := sg_notes (json_stage r no_suggestions) @ notes_found r \<rparr>)"
  by (simp add: specific_suggestions_def rel_stage_eq table_stage_eq note_stage_eq
      sql_stage_keeps)


lemma match_all_Nil: "match_all r prev [] = [] \<longleftrightarrow> paths r prev [] = []"
  by (simp add: match_at_def split: list.splits)

text \<open>
  On an engine that takes any number of arguments in one call, the parser returns a
  suggestion for every input string: the result is never \<open>Inl\<close>. Parsing the empty string
  gives the suggestion whose sequences are all empty.
\<close>

lemma parseAIResponse_returns:
  "(\<exists>sg. parseAIResponse rawText = Inr sg) \<and> parseAIResponse [] = Inr no_suggestions"
proof
  show "\<exists>sg. parseAIResponse rawText = Inr sg"
    by (simp add: parseAIResponse_def specific_suggestions_eq)
  show "parseAIResponse [] = Inr no_suggestions"
    by (simp add: parseAIResponse_def specific_suggestions_eq eval_defs eval_paths no_specific_def)
qed

text \<open>With no bound on the arguments of a call, the limited parser is the parser.\<close>

lemma fold_exn_Inr:
  assumes "\<And>s x. f s x = Inr (g s x)"
  shows "fold_exn f s xs = Inr (foldl g s xs)"
  by (induction xs arbitrary: s) (simp_all add: assms)

lemma json_block_limited_None: "json_block_limited None sg m = json_block sg m"
  by (simp add: json_block_limited_def json_block_def spread_push_def Let_def
      split: option.splits sum.splits)

lemma table_step_limited_None: "table_step_limited None r sg p = Inr (table_step r sg p)"
  by (simp add: table_step_limited_def table_step_def spread_push_def Let_def)

lemma rel_step_limited_None: "rel_step_limited None r sg p = rel_step r sg p"
  by (simp add: rel_step_limited_def rel_step_def spread_push_def Let_def split: sum.splits)

lemma note_step_limited_None: "note_step_limited None r sg p = Inr (note_step r sg p)"
  by (simp add: note_step_limited_def note_step_def spread_push_def Let_def)

lemma add_general_limited_None: "add_general_limited None r sg = Inr (add_general r sg)"
  by (simp add: add_general_limited_def add_general_def spread_push_def Let_def)

lemma parseAIResponse_limited_None: "parseAIResponse_limited None r = parseAIResponse r"
proof -
  have jb: "json_block_limited None = json_block"
    by (intro ext) (rule json_block_limited_None)
  have rs: "rel_step_limited None r = rel_step r"
    by (intro ext) (rule rel_step_limited_None)
  have j: "json_stage_limited None r sg = json_stage r sg" for sg
    by (simp add: json_stage_limited_def json_stage_def jb)
  have t: "table_stage_limited None r sg = Inr (table_stage r sg)" for sg
    by (simp add: table_stage_limited_def table_stage_def
        fold_exn_Inr [of "table_step_limited None r" "table_step r"] table_step_limited_None)
  have l: "rel_stage_limited None r sg = rel_stage r sg" for sg
    by (simp add: rel_stage_limited_def rel_stage_def rs)
  have n: "note_stage_limited None r sg = Inr (note_stage r sg)" for sg
    by (simp add: note_stage_limited_def note_stage_def
        fold_exn_Inr [of "note_step_limited None r" "note_step r"] note_step_limited_None)
  show ?thesis
    by (simp add: parseAIResponse_limited_def parseAIResponse_def specific_suggestions_def
        j t l n add_general_limited_None split: sum.splits)
qed

text \<open>A text without a backtick holds no fenced block, and the text of \<open>k\<close> lines
  \<^verbatim>\<open>add table t\<close> holds \<open>k\<close> matches of the first table pattern, one in each line.\<close>

lemma no_backtick_no_json_fence:
  "\<forall>x \<in> set s. x \<noteq> 96 \<Longrightarrow> match_all json_fence prev s = []"
  by (induction s arbitrary: prev) (simp_all add: match_at_def eval_paths unit_is_def)

lemma no_backtick_no_sql_fence:
  "\<forall>x \<in> set s. x \<noteq> 96 \<Longrightarrow> match_all sql_fence prev s = []"
  by (induction s arbitrary: prev) (simp_all add: match_at_def eval_paths unit_is_def)

lemma table_lines_units: "\<forall>x \<in> set (ex_table_lines k). x \<noteq> 96"
  by (induction k) (simp_all add: ex_table_lines_def S_def)

lemma table_line_step:
  "match_all tablePattern0 prev (S ''add table t'' @ 10 # rest)
     = S ''add table t'' # match_all tablePattern0 (Some 10) rest"
  by (simp add: eval_defs eval_paths)

lemma table_lines_matches:
  "length (match_all tablePattern0 prev (ex_table_lines k)) = k"
proof (induction k arbitrary: prev)
  case 0
  show ?case
    by (simp add: ex_table_lines_def eval_defs eval_paths)
next
  case (Suc k)
  have "ex_table_lines (Suc k) = S ''add table t'' @ 10 # ex_table_lines k"
    by (simp add: ex_table_lines_def)
  then show ?case
    using Suc.IH by (simp add: table_line_step)
qed

text \<open>
  C2 at a failing input. On an engine that takes at most \<open>maxArgs\<close> arguments in one call,
  the text of \<open>maxArgs + 1\<close> lines \<^verbatim>\<open>add table t\<close> holds \<open>maxArgs + 1\<close> matches of the first table
  pattern, and the parser raises a RangeError at \<^verbatim>\<open>suggestions.tables.push(...basicTables)\<close>,
  which no \<^verbatim>\<open>try\<close> encloses. Parsing the empty string does give the suggestion whose
  sequences are all empty, whatever the limit.
\<close>

theorem parseAIResponse_raises_RangeError:
  "length (js_match (ex_table_lines (Suc maxArgs)) tablePattern0) = Suc maxArgs
   \<and> parseAIResponse_limited (Some maxArgs) (ex_table_lines (Suc maxArgs)) = Inl RangeError
   \<and> parseAIResponse_limited (Some maxArgs) [] = Inr no_suggestions"
proof -
  let ?r = "ex_table_lines (Suc maxArgs)"
  have m: "length (js_match ?r tablePattern0) = Suc maxArgs"
    by (simp add: js_match_def table_lines_matches)
  then have ne: "js_match ?r tablePattern0 \<noteq> []"
    by auto
  have j: "js_match ?r json_fence = []"
    by (simp add: js_match_def no_backtick_no_json_fence table_lines_units)
  have q: "js_match ?r sql_fence = []"
    by (simp add: js_match_def no_backtick_no_sql_fence table_lines_units)
  have js: "json_stage_limited (Some maxArgs) ?r no_suggestions = no_suggestions"
    by (simp add: json_stage_limited_def j)
  have sq: "sql_stage ?r no_suggestions = no_suggestions"
    by (simp add: sql_stage_def q)
  have "table_step_limited (Some maxArgs) ?r no_suggestions tablePattern0 = Inl RangeError"
    using m ne by (simp add: table_step_limited_def spread_push_def Let_def)
  then have "table_stage_limited (Some maxArgs) ?r no_suggestions = Inl RangeError"
    by (simp add: table_stage_limited_def tablePatterns_def)
  then have raises: "parseAIResponse_limited (Some maxArgs) ?r = Inl RangeError"
    by (simp add: parseAIResponse_limited_def js sq)
  have empty: "parseAIResponse_limited (Some maxArgs) [] = Inr no_suggestions"
    by (simp add: parseAIResponse_limited_def json_stage_limited_def table_stage_limited_def
        rel_stage_limited_def note_stage_limited_def table_step_limited_def
        rel_step_limited_def note_step_limited_def add_general_limited_def spread_push_def
        no_specific_def eval_defs eval_paths)
  from m raises empty show ?thesis
    by simp
qed






section \<open>The parser on the example texts\<close>

lemmas ex_defs = ex_orders_text_def ex_link_text_def quoted_def fenced_def ex_foo_json_def
  ex_users_text_def ex_bar_text_def


lemma orders_fences:
  "js_match ex_orders_text json_fence = []" "js_match ex_orders_text sql_fence = []"
  by (simp_all add: eval_defs eval_paths ex_defs)

lemma orders_tables:
  "tables_found ex_orders_text =
     [default_table ''recommend orders'', default_table ''orders'', default_table ''orders'']"
  by (simp add: eval_defs eval_paths ex_defs default_table_def)

lemma orders_rels: "relationships_found ex_orders_text = []"
  by (simp add: eval_defs eval_paths ex_defs)

lemma orders_notes: "notes_found ex_orders_text = []"
  by (simp add: eval_defs eval_paths ex_defs)

lemma link_fences:
  "js_match ex_link_text json_fence = []" "js_match ex_link_text sql_fence = []"
  by (simp_all add: eval_defs eval_paths ex_defs)

lemma link_tables: "tables_found ex_link_text = []"
  by (simp add: eval_defs eval_paths ex_defs)

lemma link_rels:
  "relationships_found ex_link_text =
     [Obj [ (S ''fromTable'', Str (S ''link posts'')),
            (S ''toTable'', Str (S ''users'')),
            (S ''fromField'', Str (S ''link posts_id'')),
            (S ''toField'', Str (S ''id'')),
            (S ''cardinality'', Str (S ''one_to_many'')),
            (S ''constraint'', Str (S ''No action'')) ]]"
  by (simp add: eval_defs eval_paths ex_defs List.map_filter_simps)

lemma link_notes: "notes_found ex_link_text = []"
  by (simp add: eval_defs eval_paths ex_defs)











lemma parse_orders:
  "parseAIResponse ex_orders_text =
     Inr (no_suggestions\<lparr>sg_tables :=
            [default_table ''recommend orders'', default_table ''orders'',
             default_table ''orders'']\<rparr>)"
  by (simp add: parseAIResponse_def specific_suggestions_eq orders_fences orders_tables
      orders_rels orders_notes json_stage_def sql_stage_def no_specific_def no_suggestions_def)

lemma parse_link:
  "parseAIResponse ex_link_text =
     Inr (no_suggestions\<lparr>sg_relationships := relationships_found ex_link_text\<rparr>)"
  by (simp add: parseAIResponse_def specific_suggestions_eq link_fences link_tables
      link_rels link_notes json_stage_def sql_stage_def no_specific_def no_suggestions_def)







section \<open>Suggestion Applier: properties\<close>

lemma record_history_skip: "record_history el True dg = dg"
  by (simp add: record_history_def)

lemma find_table_Some:
  "t \<in> set tables \<Longrightarrow> strict_eq (t_name t) v \<Longrightarrow> \<exists>t'. find_table tables v = Some t'"
  by (cases "find_table tables v") (auto simp: find_table_def find_None_iff)


text \<open>
  A table suggestion whose name is the name of a table in \<^verbatim>\<open>tables\<close>, the list the
  component was rendered with, is passed over: the loop body leaves the state as it
  is, so that no change is counted, no error recorded and the diagram is the same; the
  loop goes on with the next suggestion.
\<close>

lemma apply_table_in_rendered_list_is_noop:
  assumes "get_prop tableData ''name'' = Inr (Str n)"
    and "t \<in> set (dg_tables dg)"
    and "t_name t = Str n"
  shows "apply_table nanoid (dg_tables dg) st tableData = Inr st
       \<and> loop (apply_table nanoid (dg_tables dg)) st (tableData # rest)
           = loop (apply_table nanoid (dg_tables dg)) st rest
       \<and> apply_suggestions nanoid (no_suggestions\<lparr>sg_tables := [tableData]\<rparr>) dg
           = \<lparr> res_state = initial_state dg, res_failed = False \<rparr>"
proof -
  from assms(2,3) obtain t' where "find_table (dg_tables dg) (Str n) = Some t'"
    using find_table_Some [of t "dg_tables dg" "Str n"] by auto
  with assms(1) have step: "apply_table nanoid (dg_tables dg) st tableData = Inr st" for st
    by (simp add: apply_table_def)
  then show ?thesis
    by (simp add: apply_suggestions_def no_suggestions_def)
qed


text \<open>
  \<open>handleApplySuggestion\<close> writes neither stack itself. Each step of its table loop
  either leaves the count and the store as they are, or counts one change and makes the
  one call \<^verbatim>\<open>addTable(newTable, true)\<close>: what a counted table does to the history is what
  that call does in the store.
\<close>

lemma apply_table_one_store_call:
  "(ap_appliedCount (reached (apply_table nanoid tables st td)) = ap_appliedCount st
      \<and> ap_diagram (reached (apply_table nanoid tables st td)) = ap_diagram st)
   \<or> (ap_appliedCount (reached (apply_table nanoid tables st td)) = Suc (ap_appliedCount st)
      \<and> (\<exists>newTable. ap_diagram (reached (apply_table nanoid tables st td))
                       = addTable newTable True (ap_diagram st)))"
  by (auto simp: reached_def apply_table_def Let_def
      split: sum.splits option.splits jv.splits prod.splits)

text \<open>
  With the store as it is modelled above, where the second argument is read as
  \<^verbatim>\<open>skipHistory\<close>, a run of \<open>handleApplySuggestion\<close> leaves both stacks as they are.
\<close>

lemma apply_table_history:
  "history (reached (apply_table nanoid tables st td)) = history st"
  by (auto simp: history_def reached_def apply_table_def addTable_def record_history_skip
      Let_def split: sum.splits option.splits jv.splits prod.splits)

lemma apply_relationship_history:
  "history (reached (apply_relationship nanoid tables st td)) = history st"
  by (auto simp: history_def reached_def apply_relationship_def addRelationship_def
      record_history_skip Let_def split: sum.splits option.splits prod.splits)

lemma apply_note_history:
  "history (reached (apply_note nanoid st td)) = history st"
  by (auto simp: history_def reached_def apply_note_def addNote_def record_history_skip
      Let_def split: sum.splits jv.splits)

lemma loop_history:
  assumes "\<And>st x. history (reached (body st x)) = history st"
  shows "history (reached (loop body st xs)) = history st"
proof (induction xs arbitrary: st)
  case Nil
  then show ?case by (simp add: reached_def)
next
  case (Cons x xs)
  show ?case
  proof (cases "body st x")
    case (Inl a)
    with assms [of st x] show ?thesis by (simp add: reached_def)
  next
    case (Inr b)
    with assms [of st x] Cons.IH [of b] show ?thesis by (simp add: reached_def)
  qed
qed

lemma apply_suggestions_history:
  "history (res_state (apply_suggestions nanoid sg dg)) = history (initial_state dg)"
proof -
  let ?l1 = "loop (apply_table nanoid (dg_tables dg)) (initial_state dg) (sg_tables sg)"
  have h1: "history (reached ?l1) = history (initial_state dg)"
    by (rule loop_history) (rule apply_table_history)
  show ?thesis
  proof (cases ?l1)
    case (Inl st)
    with h1 show ?thesis by (simp add: apply_suggestions_def reached_def)
  next
    case l1: (Inr st1)
    let ?l2 = "loop (apply_relationship nanoid (dg_tables dg)) st1 (sg_relationships sg)"
    have h2: "history (reached ?l2) = history st1"
      by (rule loop_history) (rule apply_relationship_history)
    show ?thesis
    proof (cases ?l2)
      case (Inl st)
      with h1 h2 l1 show ?thesis by (simp add: apply_suggestions_def reached_def)
    next
      case l2: (Inr st2)
      let ?l3 = "loop (apply_note nanoid) st2 (sg_notes sg)"
      have h3: "history (reached ?l3) = history st2"
        by (rule loop_history) (rule apply_note_history)
      from h1 h2 h3 l1 l2 show ?thesis
        by (cases ?l3) (simp_all add: apply_suggestions_def reached_def)
    qed
  qed
qed

lemma handleApplySuggestion_history:
  "history (res_state (handleApplySuggestion nanoid content dg)) = history (initial_state dg)"
  by (simp add: handleApplySuggestion_def apply_suggestions_history split: sum.splits)

text \<open>
  \<open>applyTableSuggestion\<close> does push one entry and clear the redo stack, behind whatever
  its call of \<^verbatim>\<open>addTable\<close> did.
\<close>

lemma applyTableSuggestion_pushes_one:
  assumes "applyTableSuggestion tableData addT
             (\<lambda>f w. w\<lparr>dg_undoStack := f (dg_undoStack w)\<rparr>) (\<lambda>v w. w\<lparr>dg_redoStack := v\<rparr>) tr w
           = (Some newTable, w')"
  shows "dg_undoStack w' = dg_undoStack (addT newTable w)
           @ [\<lparr> u_action = ADD, u_element = TABLE,
                 u_message = tr (the_prop tableData ''name''), u_data = newTable \<rparr>]
       \<and> dg_redoStack w' = []"
  using assms
  by (auto simp: applyTableSuggestion_def the_prop_def Let_def
      split: sum.splits jv.splits if_splits)

lemma orders_stage:
  "sg_tables (table_stage ex_orders_text no_suggestions) =
     [default_table ''recommend orders'', default_table ''orders'', default_table ''orders'']"
  by (simp add: table_stage_eq orders_tables no_suggestions_def)

lemma default_table_props:
  "get_prop (default_table n) ''name'' = Inr (Str (S n))"
  "the_prop (default_table n) ''fields'' = default_fields"
  "the_prop (default_table n) ''comment'' = Str (S ''AI-suggested table: '' @ S n)"
  by (simp_all add: default_table_def the_prop_def S_def)

lemma default_fields_new:
  "\<exists>ds. new_fields nanoid k (case default_fields of Arr fs \<Rightarrow> fs | _ \<Rightarrow> []) = (Inr ds, k + 3)"
  by (simp add: default_fields_def)

lemma apply_default_table:
  assumes "find_table tables (Str (S n)) = None"
  shows "\<exists>st'. apply_table nanoid tables st (default_table n) = Inr st'
         \<and> ap_appliedCount st' = Suc (ap_appliedCount st)
         \<and> ap_errors st' = ap_errors st
         \<and> map t_name (ap_addedTables st') = map t_name (ap_addedTables st) @ [Str (S n)]"
  using assms
  by (simp add: apply_table_def default_table_props default_fields_def Let_def)

lemma apply_default_tables:
  assumes "\<And>v. find_table tables v = None"
  shows "\<exists>st'. loop (apply_table nanoid tables) st (map default_table ns) = Inr st'
         \<and> ap_appliedCount st' = ap_appliedCount st + length ns
         \<and> ap_errors st' = ap_errors st
         \<and> map t_name (ap_addedTables st')
             = map t_name (ap_addedTables st) @ map (\<lambda>n. Str (S n)) ns"
proof (induction ns arbitrary: st)
  case Nil
  show ?case by simp
next
  case (Cons n ns)
  obtain s1 where s1: "apply_table nanoid tables st (default_table n) = Inr s1"
    "ap_appliedCount s1 = Suc (ap_appliedCount st)" "ap_errors s1 = ap_errors st"
    "map t_name (ap_addedTables s1) = map t_name (ap_addedTables st) @ [Str (S n)]"
    using apply_default_table [OF assms, of nanoid st n] by auto
  obtain st' where st': "loop (apply_table nanoid tables) s1 (map default_table ns) = Inr st'"
    "ap_appliedCount st' = ap_appliedCount s1 + length ns" "ap_errors st' = ap_errors s1"
    "map t_name (ap_addedTables st')
       = map t_name (ap_addedTables s1) @ map (\<lambda>n. Str (S n)) ns"
    using Cons.IH [of s1] by auto
  show ?case
    by (simp add: s1 st')
qed

lemma apply_default_batch:
  assumes "dg_tables dg = []"
  shows "\<exists>st'. apply_suggestions nanoid (no_suggestions\<lparr>sg_tables := map default_table ns\<rparr>) dg
                 = \<lparr> res_state = st', res_failed = False \<rparr>
         \<and> ap_appliedCount st' = length ns
         \<and> ap_errors st' = []
         \<and> map t_name (ap_addedTables st') = map (\<lambda>n. Str (S n)) ns"
proof -
  have none: "find_table (dg_tables dg) v = None" for v
    by (simp add: assms find_table_def)
  obtain st' where st':
    "loop (apply_table nanoid (dg_tables dg)) (initial_state dg) (map default_table ns) = Inr st'"
    "ap_appliedCount st' = ap_appliedCount (initial_state dg) + length ns"
    "ap_errors st' = ap_errors (initial_state dg)"
    "map t_name (ap_addedTables st')
       = map t_name (ap_addedTables (initial_state dg)) @ map (\<lambda>n. Str (S n)) ns"
    using apply_default_tables [OF none, of nanoid "initial_state dg" ns] by auto
  have "apply_suggestions nanoid (no_suggestions\<lparr>sg_tables := map default_table ns\<rparr>) dg
          = \<lparr> res_state = st', res_failed = False \<rparr>"
    by (simp add: apply_suggestions_def no_suggestions_def st')
  with st' show ?thesis
    by (simp add: initial_state_def)
qed

text \<open>
  With a store that logs a change whenever \<^verbatim>\<open>skipHistory\<close> is absent, as \<open>addTable\<close>
  is modelled, the call \<^verbatim>\<open>addTable(newTable)\<close> of \<open>applyTableSuggestion\<close> already logs
  one entry, and the function's own entry is a second one.
\<close>

lemma applyTableSuggestion_with_store_history:
  assumes "applyTableSuggestion tableData (\<lambda>t. record_history TABLE False)
             (\<lambda>f w. w\<lparr>dg_undoStack := f (dg_undoStack w)\<rparr>) (\<lambda>v w. w\<lparr>dg_redoStack := v\<rparr>) tr w
           = (Some newTable, w')"
  shows "length (dg_undoStack w') = length (dg_undoStack w) + 2 \<and> dg_redoStack w' = []"
  using applyTableSuggestion_pushes_one [OF assms]
  by (simp add: record_history_def)

section \<open>The scenarios\<close>

text \<open>
  C1 at its input. For the text \<open>I recommend adding table orders\<close> the table-name
  heuristics yield three table suggestions, one for each of the three patterns, and the
  parser returns these three. The first is named \<open>recommend orders\<close>: of the match
  \<open>recommend adding table orders\<close> the strip expression cuts \<open>adding table\<close> only. At the
  start of the match its alternative \<^verbatim>\<open>recommend.*table\<close> takes the one word \<open>table\<close>, which
  the expression asks for once more behind the alternative, so the leftmost place where
  it matches is at \<open>add\<close>. The other two are named \<open>orders\<close>. Applied to an empty diagram, with any source of identifiers, all three
  are added: three changes are counted, no error is recorded, and the tables passed to
  the store are named \<open>recommend orders\<close>, \<open>orders\<close> and \<open>orders\<close>. The second \<open>orders\<close> is not
  passed over, because the check reads the list \<^verbatim>\<open>tables\<close> the component was rendered
  with, and not \<^verbatim>\<open>addedTables\<close>.
\<close>

theorem orders_scenario:
  "sg_tables (table_stage ex_orders_text no_suggestions)
     = [default_table ''recommend orders'', default_table ''orders'', default_table ''orders'']
   \<and> parseAIResponse ex_orders_text
       = Inr (no_suggestions\<lparr>sg_tables :=
                [default_table ''recommend orders'', default_table ''orders'',
                 default_table ''orders'']\<rparr>)
   \<and> res_failed (handleApplySuggestion nanoid ex_orders_text empty_diagram) = False
   \<and> ap_appliedCount (res_state (handleApplySuggestion nanoid ex_orders_text empty_diagram)) = 3
   \<and> ap_errors (res_state (handleApplySuggestion nanoid ex_orders_text empty_diagram)) = []
   \<and> map t_name (ap_addedTables (res_state
        (handleApplySuggestion nanoid ex_orders_text empty_diagram)))
       = [Str (S ''recommend orders''), Str (S ''orders''), Str (S ''orders'')]"
proof -
  have e: "dg_tables empty_diagram = []" by (simp add: empty_diagram_def)
  obtain st' where st':
    "apply_suggestions nanoid
       (no_suggestions\<lparr>sg_tables := map default_table [''recommend orders'', ''orders'', ''orders'']\<rparr>)
       empty_diagram = \<lparr> res_state = st', res_failed = False \<rparr>"
    "ap_appliedCount st' = 3" "ap_errors st' = []"
    "map t_name (ap_addedTables st')
       = [Str (S ''recommend orders''), Str (S ''orders''), Str (S ''orders'')]"
    using apply_default_batch [OF e, of nanoid "[''recommend orders'', ''orders'', ''orders'']"]
    by auto
  from st' show ?thesis
    by (simp add: orders_stage handleApplySuggestion_def parse_orders)
qed

text \<open>
  C5 at a failing input. A batch holds the table suggestion \<open>orders\<close> twice, and the
  diagram is empty. The first is added. When the loop reaches the second, a table named
  \<open>orders\<close> is in the diagram, and the suggestion is applied again: two changes are
  counted, and two tables named \<open>orders\<close> are passed to the store. The check reads the
  list \<^verbatim>\<open>tables\<close> the component was rendered with, and not \<^verbatim>\<open>addedTables\<close>.
\<close>

theorem table_added_in_batch_is_added_again:
  "res_failed (apply_suggestions nanoid
      (no_suggestions\<lparr>sg_tables := [default_table ''orders'', default_table ''orders'']\<rparr>)
      empty_diagram) = False
   \<and> ap_appliedCount (res_state (apply_suggestions nanoid
        (no_suggestions\<lparr>sg_tables := [default_table ''orders'', default_table ''orders'']\<rparr>)
        empty_diagram)) = 2
   \<and> ap_errors (res_state (apply_suggestions nanoid
        (no_suggestions\<lparr>sg_tables := [default_table ''orders'', default_table ''orders'']\<rparr>)
        empty_diagram)) = []
   \<and> map t_name (ap_addedTables (res_state (apply_suggestions nanoid
        (no_suggestions\<lparr>sg_tables := [default_table ''orders'', default_table ''orders'']\<rparr>)
        empty_diagram)))
       = [Str (S ''orders''), Str (S ''orders'')]"
proof -
  have e: "dg_tables empty_diagram = []" by (simp add: empty_diagram_def)
  obtain st' where st':
    "apply_suggestions nanoid
       (no_suggestions\<lparr>sg_tables := map default_table [''orders'', ''orders'']\<rparr>)
       empty_diagram = \<lparr> res_state = st', res_failed = False \<rparr>"
    "ap_appliedCount st' = 2" "ap_errors st' = []"
    "map t_name (ap_addedTables st') = [Str (S ''orders''), Str (S ''orders'')]"
    using apply_default_batch [OF e, of nanoid "[''orders'', ''orders'']"]
    by auto
  from st' show ?thesis
    by simp
qed

text \<open>
  C8 at its input. Parsing \<open>link posts to users\<close> gives exactly one relationship
  suggestion, but its \<open>fromTable\<close> is \<open>link posts\<close> and its \<open>fromField\<close> is \<open>link posts_id\<close>:
  the expression that should cut the leading keyword only matches a text that holds
  the word \<open>relationship\<close>.
\<close>

theorem link_scenario:
  "parseAIResponse ex_link_text = Inr (no_suggestions\<lparr>sg_relationships := [ex_link_rel]\<rparr>)
   \<and> get_prop ex_link_rel ''fromTable'' = Inr (Str (S ''link posts''))
   \<and> get_prop ex_link_rel ''fromField'' = Inr (Str (S ''link posts_id''))"
  by (simp add: parse_link link_rels ex_link_rel_def S_def)







end
